theory Spec2Isabelle
  imports Main "HOL-Library.Word"
begin

section \<open>PrismVote: encrypted polls with public decryption after the end\<close>

text \<open>
  A shallow embedding of \<^verbatim>\<open>contracts/PrismVote.sol\<close>. Storage is an explicit record that
  each external function takes and returns; a \<^verbatim>\<open>require\<close> that fails, a panic of
  checked arithmetic or of an array bounds check, and a revert of the encryption library
  are values of \<open>error\<close>. A function returns \<open>Done r s'\<close> with its return value and the
  storage it leaves, or \<open>Failed e s'\<close> with the storage as it stood where execution
  stopped; \<open>transact\<close> then applies the rule of the virtual machine, which discards every
  write of a reverted call.
\<close>

subsection \<open>Value types\<close>

type_synonym uint8 = "8 word"
type_synonym uint32 = "32 word"
type_synonym uint64 = "64 word"
type_synonym uint256 = "256 word"
type_synonym address = "160 word"
type_synonym bytes = "8 word list"

text \<open>
  \<^verbatim>\<open>euint32\<close>, \<^verbatim>\<open>ebool\<close> and \<^verbatim>\<open>externalEuint32\<close> are user-defined value types over
  \<^verbatim>\<open>bytes32\<close>: a handle that names a ciphertext. \<^verbatim>\<open>euint32.unwrap\<close> is the identity.
\<close>

type_synonym handle = "256 word"

text \<open>
  A fixed-size array of four elements (\<^verbatim>\<open>string[4]\<close>, \<^verbatim>\<open>euint32[4]\<close>, \<^verbatim>\<open>uint32[4]\<close>).
  \<open>get4\<close> and \<open>set4\<close> are only called under the bounds check \<open>i < 4\<close> that the compiler
  puts in front of every indexed access; the caller models the panic.
\<close>

datatype 'a arr4 = Arr4 'a 'a 'a 'a

fun get4 :: "'a arr4 \<Rightarrow> nat \<Rightarrow> 'a" where
  "get4 (Arr4 a b c d) i = (if i = 0 then a else if i = 1 then b else if i = 2 then c else d)"

fun set4 :: "'a arr4 \<Rightarrow> nat \<Rightarrow> 'a \<Rightarrow> 'a arr4" where
  "set4 (Arr4 a b c d) i v =
     (if i = 0 then Arr4 v b c d
      else if i = 1 then Arr4 a v c d
      else if i = 2 then Arr4 a b v d
      else if i = 3 then Arr4 a b c v
      else Arr4 a b c d)"

subsection \<open>Errors\<close>

text \<open>
  \<open>Require msg\<close> is a failed \<^verbatim>\<open>require(_, msg)\<close> with the source's message. \<open>Panic 0x11\<close>
  is an overflow of checked arithmetic, \<open>Panic 0x32\<close> an index out of bounds.
  \<open>InvalidInputProof\<close> and \<open>InvalidProof\<close> are the reverts of \<^verbatim>\<open>FHE.fromExternal\<close> and
  \<^verbatim>\<open>FHE.checkSignatures\<close>.
\<close>

datatype error =
    Require string
  | Panic nat
  | InvalidInputProof
  | InvalidProof

text \<open>The names the specification gives to the reverts of the contract.\<close>

abbreviation NotFound :: error where "NotFound \<equiv> Require ''Poll does not exist''"
abbreviation PollClosed :: error where "PollClosed \<equiv> Require ''Poll ended''"
abbreviation NotStarted :: error where "NotStarted \<equiv> Require ''Poll not started''"
abbreviation PollExpired :: error where "PollExpired \<equiv> Require ''Poll closed''"
abbreviation DuplicateVote :: error where "DuplicateVote \<equiv> Require ''Already voted''"
abbreviation StillActive :: error where "StillActive \<equiv> Require ''Poll still active''"
abbreviation NotReady :: error where "NotReady \<equiv> Require ''Results not public''"
abbreviation AlreadyPublished :: error where
  "AlreadyPublished \<equiv> Require ''Results already published''"
abbreviation LengthMismatch :: error where "LengthMismatch \<equiv> Require ''Invalid results length''"

text \<open>\<^verbatim>\<open>InvalidConfiguration\<close> covers both reverts of \<^verbatim>\<open>createPoll\<close>.\<close>

definition InvalidConfiguration :: "error \<Rightarrow> bool" where
  "InvalidConfiguration e =
     (e = Require ''Invalid option count'' \<or> e = Require ''Invalid time range'')"

subsection \<open>Storage\<close>

record Poll =
  title :: string
  options :: "string arr4"
  optionCount :: uint8
  startTime :: uint64
  endTime :: uint64
  creator :: address
  ended :: bool
  publicReady :: bool
  resultsPublished :: bool
  encryptedCounts :: "handle arr4"
  publicCounts :: "uint32 arr4"

datatype event =
    PollCreated uint256 address string uint8 uint64 uint64
  | VoteCast uint256 address
  | PollEnded uint256
  | ResultsPublished uint256

text \<open>
  \<open>polls\<close>, \<open>voted\<close> and \<open>pollCount\<close> are \<^verbatim>\<open>_polls\<close>, \<^verbatim>\<open>_hasVoted\<close> and \<^verbatim>\<open>_pollCount\<close>; a
  mapping has a value at every key. \<open>events\<close> is the log of emitted events.
  \<open>allowedThis\<close> and \<open>publiclyDecryptable\<close> are the handles passed, in order, to
  \<^verbatim>\<open>FHE.allowThis\<close> and \<^verbatim>\<open>FHE.makePubliclyDecryptable\<close>: the contract's writes to the
  access-control list of the encryption library.
\<close>

record state =
  polls :: "uint256 \<Rightarrow> Poll"
  voted :: "uint256 \<Rightarrow> address \<Rightarrow> bool"
  pollCount :: uint256
  events :: "event list"
  allowedThis :: "handle list"
  publiclyDecryptable :: "handle list"

definition zeroPoll :: Poll where
  "zeroPoll = \<lparr> title = [], options = Arr4 [] [] [] [], optionCount = 0, startTime = 0,
     endTime = 0, creator = 0, ended = False, publicReady = False, resultsPublished = False,
     encryptedCounts = Arr4 0 0 0 0, publicCounts = Arr4 0 0 0 0 \<rparr>"

definition initial :: state where
  "initial = \<lparr> polls = (\<lambda>_. zeroPoll), voted = (\<lambda>_ _. False), pollCount = 0, events = [],
     allowedThis = [], publiclyDecryptable = [] \<rparr>"

text \<open>What the execution environment supplies with a call.\<close>

record env =
  timestamp :: uint256
  sender :: address

datatype 'a outcome = Done 'a state | Failed error state

subsection \<open>The encryption library\<close>

text \<open>
  Modelled from the spec: \<^verbatim>\<open>@fhevm/solidity/lib/FHE.sol\<close> is an external library, not part
  of the repository. Its operations are parameters of the model, with the contract the
  specification gives them: \<open>asEuint32\<close> is the encryption of a plaintext constant,
  \<open>fromExternal\<close> decodes and verifies an external input or fails, \<open>fhe_eq\<close>, \<open>fhe_select\<close>
  and \<open>fhe_add\<close> are the homomorphic operations, and \<open>checkSignatures\<close> says whether a
  decryption proof authenticates a list of handles and an encoding of cleartexts.
\<close>

record fhe =
  asEuint32 :: "uint32 \<Rightarrow> handle"
  fromExternal :: "handle \<Rightarrow> bytes \<Rightarrow> handle option"
  fhe_eq :: "handle \<Rightarrow> handle \<Rightarrow> handle"
  fhe_select :: "handle \<Rightarrow> handle \<Rightarrow> handle \<Rightarrow> handle"
  fhe_add :: "handle \<Rightarrow> handle \<Rightarrow> handle"
  checkSignatures :: "handle list \<Rightarrow> bytes \<Rightarrow> bytes \<Rightarrow> bool"

subsection \<open>Internal helpers\<close>

definition requirePollExists :: "state \<Rightarrow> uint256 \<Rightarrow> bool" where
  \<comment> \<open>\<^verbatim>\<open>_requirePollExists\<close>: the condition of its \<^verbatim>\<open>require\<close>\<close>
  "requirePollExists s pollId = (pollId < pollCount s)"

definition setPoll :: "state \<Rightarrow> uint256 \<Rightarrow> Poll \<Rightarrow> state" where
  \<comment> \<open>a write through the storage reference \<^verbatim>\<open>Poll storage poll = _polls[pollId]\<close>\<close>
  "setPoll s pollId p = s\<lparr>polls := (polls s)(pollId := p)\<rparr>"

definition setVoted ::
  "(uint256 \<Rightarrow> address \<Rightarrow> bool) \<Rightarrow> uint256 \<Rightarrow> address \<Rightarrow> (uint256 \<Rightarrow> address \<Rightarrow> bool)" where
  \<comment> \<open>\<^verbatim>\<open>_hasVoted[pollId][voter] = true\<close>\<close>
  "setVoted m pollId voter = m(pollId := (m pollId)(voter := True))"

text \<open>
  \<^verbatim>\<open>abi.encode\<close> of \<^verbatim>\<open>uint32\<close> values: each value is one 32-byte word, big-endian, and the
  words are concatenated in order.
\<close>

definition abi_word :: "uint32 \<Rightarrow> bytes" where
  "abi_word w = replicate 28 0 @
     [ucast (drop_bit 24 w), ucast (drop_bit 16 w), ucast (drop_bit 8 w), ucast w]"

definition abi_encode :: "uint32 list \<Rightarrow> bytes" where
  "abi_encode ws = concat (map abi_word ws)"

subsection \<open>createPoll\<close>

text \<open>
  The loops of the contract count with a \<^verbatim>\<open>uint8\<close> below a \<^verbatim>\<open>uint8\<close> bound, so the
  increment never overflows; the counter is a natural number here. Each loop is a
  function of the storage it touches and returns it with the error that stopped it, if
  any.
\<close>

function options_loop ::
  "string list \<Rightarrow> nat \<Rightarrow> nat \<Rightarrow> string arr4 \<Rightarrow> error option \<times> string arr4" where
  "options_loop opts n i a =
     (if i < n then
        (if i < 4 \<and> i < length opts then options_loop opts n (Suc i) (set4 a i (opts ! i))
         else (Some (Panic 0x32), a))
      else (None, a))"
  by pat_completeness auto
termination
  by (relation "measure (\<lambda>(opts, n, i, a). n - i)") auto

function zero_loop ::
  "fhe \<Rightarrow> nat \<Rightarrow> handle arr4 \<Rightarrow> handle list \<Rightarrow> handle arr4 \<times> handle list" where
  "zero_loop L i counts allowed =
     (if i < 4 then
        (let counts' = set4 counts i (asEuint32 L 0)
         in zero_loop L (Suc i) counts' (allowed @ [get4 counts' i]))
      else (counts, allowed))"
  by pat_completeness auto
termination
  by (relation "measure (\<lambda>(L, i, counts, allowed). 4 - i)") auto

definition createPoll ::
  "fhe \<Rightarrow> env \<Rightarrow> string \<Rightarrow> string list \<Rightarrow> uint64 \<Rightarrow> uint64 \<Rightarrow> state \<Rightarrow> uint256 outcome" where
  "createPoll L e ttl opts start end' s =
     (if \<not> (2 \<le> length opts \<and> length opts \<le> 4) then Failed (Require ''Invalid option count'') s
      else if \<not> start < end' then Failed (Require ''Invalid time range'') s
      else
        let pollId = pollCount s in
        if pollCount s = - 1 then Failed (Panic 0x11) s
        else
          let s1 = s\<lparr>pollCount := pollCount s + 1\<rparr>;
              poll = (polls s1 pollId)\<lparr>title := ttl, optionCount := of_nat (length opts),
                 startTime := start, endTime := end', creator := sender e\<rparr>
          in case options_loop opts (unat (optionCount poll)) 0 (options poll) of
               (Some err, a) \<Rightarrow> Failed err (setPoll s1 pollId (poll\<lparr>options := a\<rparr>))
             | (None, a) \<Rightarrow>
                 let (counts, allowed) =
                       zero_loop L 0 (encryptedCounts poll) (allowedThis s1);
                     poll' = poll\<lparr>options := a, encryptedCounts := counts\<rparr>;
                     s2 = (setPoll s1 pollId poll')\<lparr>allowedThis := allowed\<rparr>
                 in Done pollId
                      (s2\<lparr>events := events s2 @
                         [PollCreated pollId (sender e) ttl (optionCount poll') start end']\<rparr>))"

subsection \<open>vote\<close>

function vote_loop ::
  "fhe \<Rightarrow> handle \<Rightarrow> handle \<Rightarrow> handle \<Rightarrow> nat \<Rightarrow> nat \<Rightarrow> handle arr4 \<Rightarrow> handle list
     \<Rightarrow> error option \<times> handle arr4 \<times> handle list" where
  "vote_loop L choice one zero n i counts allowed =
     (if i < n then
        (if i < 4 then
           (let isChoice = fhe_eq L choice (asEuint32 L (of_nat i));
                increment = fhe_select L isChoice one zero;
                counts' = set4 counts i (fhe_add L (get4 counts i) increment)
            in vote_loop L choice one zero n (Suc i) counts' (allowed @ [get4 counts' i]))
         else (Some (Panic 0x32), counts, allowed))
      else (None, counts, allowed))"
  by pat_completeness auto
termination
  by (relation "measure (\<lambda>(L, choice, one, zero, n, i, counts, allowed). n - i)") auto

definition vote :: "fhe \<Rightarrow> env \<Rightarrow> uint256 \<Rightarrow> handle \<Rightarrow> bytes \<Rightarrow> state \<Rightarrow> unit outcome" where
  "vote L e pollId encryptedChoice inputProof s =
     (if \<not> requirePollExists s pollId then Failed (Require ''Poll does not exist'') s
      else
        let poll = polls s pollId in
        if ended poll then Failed (Require ''Poll ended'') s
        else if \<not> ucast (startTime poll) \<le> timestamp e then Failed (Require ''Poll not started'') s
        else if \<not> timestamp e < ucast (endTime poll) then Failed (Require ''Poll closed'') s
        else if voted s pollId (sender e) then Failed (Require ''Already voted'') s
        else
          case fromExternal L encryptedChoice inputProof of
            None \<Rightarrow> Failed InvalidInputProof s
          | Some choice \<Rightarrow>
              let one = asEuint32 L 1;
                  zero = asEuint32 L 0;
                  (err, counts, allowed) =
                    vote_loop L choice one zero (unat (optionCount poll)) 0
                      (encryptedCounts poll) (allowedThis s);
                  s1 = (setPoll s pollId (poll\<lparr>encryptedCounts := counts\<rparr>))
                         \<lparr>allowedThis := allowed\<rparr>
              in case err of
                   Some x \<Rightarrow> Failed x s1
                 | None \<Rightarrow>
                     Done ()
                       (s1\<lparr>voted := setVoted (voted s1) pollId (sender e),
                           events := events s1 @ [VoteCast pollId (sender e)]\<rparr>))"

subsection \<open>endPoll\<close>

function decryptable_loop ::
  "nat \<Rightarrow> nat \<Rightarrow> handle arr4 \<Rightarrow> handle list \<Rightarrow> error option \<times> handle list" where
  "decryptable_loop n i counts marked =
     (if i < n then
        (if i < 4 then decryptable_loop n (Suc i) counts (marked @ [get4 counts i])
         else (Some (Panic 0x32), marked))
      else (None, marked))"
  by pat_completeness auto
termination
  by (relation "measure (\<lambda>(n, i, counts, marked). n - i)") auto

definition endPoll :: "env \<Rightarrow> uint256 \<Rightarrow> state \<Rightarrow> unit outcome" where
  "endPoll e pollId s =
     (if \<not> requirePollExists s pollId then Failed (Require ''Poll does not exist'') s
      else
        let poll = polls s pollId in
        if ended poll then Failed (Require ''Poll already ended'') s
        else if \<not> ucast (endTime poll) \<le> timestamp e then Failed (Require ''Poll still active'') s
        else
          let poll' = poll\<lparr>ended := True, publicReady := True\<rparr>;
              (err, marked) =
                decryptable_loop (unat (optionCount poll')) 0 (encryptedCounts poll')
                  (publiclyDecryptable s);
              s1 = (setPoll s pollId poll')\<lparr>publiclyDecryptable := marked\<rparr>
          in case err of
               Some x \<Rightarrow> Failed x s1
             | None \<Rightarrow> Done () (s1\<lparr>events := events s1 @ [PollEnded pollId]\<rparr>))"

subsection \<open>publishResults\<close>

function handles_loop :: "nat \<Rightarrow> nat \<Rightarrow> handle arr4 \<Rightarrow> handle list \<Rightarrow> error + handle list" where
  "handles_loop n i counts handles =
     (if i < n then
        (if i < 4 \<and> i < length handles
         then handles_loop n (Suc i) counts (handles[i := get4 counts i])
         else Inl (Panic 0x32))
      else Inr handles)"
  by pat_completeness auto
termination
  by (relation "measure (\<lambda>(n, i, counts, handles). n - i)") auto

definition encode_cleartexts :: "nat \<Rightarrow> uint32 list \<Rightarrow> error + bytes" where
  \<comment> \<open>the three branches on \<^verbatim>\<open>poll.optionCount\<close>; an index into calldata is bounds-checked\<close>
  "encode_cleartexts n clearCounts =
     (if n = 2 then
        (if 1 < length clearCounts
         then Inr (abi_encode [clearCounts ! 0, clearCounts ! 1]) else Inl (Panic 0x32))
      else if n = 3 then
        (if 2 < length clearCounts
         then Inr (abi_encode [clearCounts ! 0, clearCounts ! 1, clearCounts ! 2])
         else Inl (Panic 0x32))
      else
        (if 3 < length clearCounts
         then Inr (abi_encode
                [clearCounts ! 0, clearCounts ! 1, clearCounts ! 2, clearCounts ! 3])
         else Inl (Panic 0x32)))"

function publish_loop ::
  "uint32 list \<Rightarrow> nat \<Rightarrow> nat \<Rightarrow> uint32 arr4 \<Rightarrow> error option \<times> uint32 arr4" where
  "publish_loop clearCounts n i pc =
     (if i < n then
        (if i < 4 \<and> i < length clearCounts
         then publish_loop clearCounts n (Suc i) (set4 pc i (clearCounts ! i))
         else (Some (Panic 0x32), pc))
      else (None, pc))"
  by pat_completeness auto
termination
  by (relation "measure (\<lambda>(clearCounts, n, i, pc). n - i)") auto

definition publishResults ::
  "fhe \<Rightarrow> env \<Rightarrow> uint256 \<Rightarrow> uint32 list \<Rightarrow> bytes \<Rightarrow> state \<Rightarrow> unit outcome" where
  "publishResults L e pollId clearCounts decryptionProof s =
     (if \<not> requirePollExists s pollId then Failed (Require ''Poll does not exist'') s
      else
        let poll = polls s pollId; n = unat (optionCount poll) in
        if \<not> publicReady poll then Failed (Require ''Results not public'') s
        else if resultsPublished poll then Failed (Require ''Results already published'') s
        else if length clearCounts \<noteq> n then Failed (Require ''Invalid results length'') s
        else
          case handles_loop n 0 (encryptedCounts poll) (replicate n 0) of
            Inl x \<Rightarrow> Failed x s
          | Inr handles \<Rightarrow>
              (case encode_cleartexts n clearCounts of
                 Inl x \<Rightarrow> Failed x s
               | Inr cleartexts \<Rightarrow>
                   if \<not> checkSignatures L handles cleartexts decryptionProof
                   then Failed InvalidProof s
                   else
                     (case publish_loop clearCounts n 0 (publicCounts poll) of
                        (Some x, pc) \<Rightarrow> Failed x (setPoll s pollId (poll\<lparr>publicCounts := pc\<rparr>))
                      | (None, pc) \<Rightarrow>
                          let s1 = setPoll s pollId
                                     (poll\<lparr>publicCounts := pc, resultsPublished := True\<rparr>)
                          in Done () (s1\<lparr>events := events s1 @ [ResultsPublished pollId]\<rparr>))))"

subsection \<open>Read operations\<close>

definition getPollCount :: "state \<Rightarrow> uint256" where
  "getPollCount s = pollCount s"

datatype retval =
    Nothing
  | Id uint256
  | PollData string "string arr4" uint8 uint64 uint64 address bool bool bool
  | Handles "handle arr4"
  | Counts "uint32 arr4"
  | Flag bool

definition getPoll :: "state \<Rightarrow> uint256 \<Rightarrow> error + retval" where
  "getPoll s pollId =
     (if \<not> requirePollExists s pollId then Inl (Require ''Poll does not exist'')
      else let poll = polls s pollId in
        Inr (PollData (title poll) (options poll) (optionCount poll) (startTime poll)
               (endTime poll) (creator poll) (ended poll) (publicReady poll)
               (resultsPublished poll)))"

definition getEncryptedCounts :: "state \<Rightarrow> uint256 \<Rightarrow> error + handle arr4" where
  "getEncryptedCounts s pollId =
     (if \<not> requirePollExists s pollId then Inl (Require ''Poll does not exist'')
      else Inr (encryptedCounts (polls s pollId)))"

definition getPublicCounts :: "state \<Rightarrow> uint256 \<Rightarrow> error + uint32 arr4" where
  "getPublicCounts s pollId =
     (if \<not> requirePollExists s pollId then Inl (Require ''Poll does not exist'')
      else Inr (publicCounts (polls s pollId)))"

definition hasVoted :: "state \<Rightarrow> uint256 \<Rightarrow> address \<Rightarrow> error + bool" where
  "hasVoted s pollId voter =
     (if \<not> requirePollExists s pollId then Inl (Require ''Poll does not exist'')
      else Inr (voted s pollId voter))"

subsection \<open>Transactions\<close>

datatype call =
    CreatePoll string "string list" uint64 uint64
  | Vote uint256 handle bytes
  | EndPoll uint256
  | PublishResults uint256 "uint32 list" bytes
  | GetPollCount
  | GetPoll uint256
  | GetEncryptedCounts uint256
  | GetPublicCounts uint256
  | HasVoted uint256 address

definition returning :: "('a \<Rightarrow> retval) \<Rightarrow> 'a outcome \<Rightarrow> retval outcome" where
  "returning f r = (case r of Done x s \<Rightarrow> Done (f x) s | Failed x s \<Rightarrow> Failed x s)"

definition reading :: "('a \<Rightarrow> retval) \<Rightarrow> state \<Rightarrow> error + 'a \<Rightarrow> retval outcome" where
  \<comment> \<open>a \<^verbatim>\<open>view\<close> function writes nothing\<close>
  "reading f s r = (case r of Inr x \<Rightarrow> Done (f x) s | Inl x \<Rightarrow> Failed x s)"

fun exec :: "fhe \<Rightarrow> env \<Rightarrow> call \<Rightarrow> state \<Rightarrow> retval outcome" where
  "exec L e (CreatePoll ttl opts start end') s =
     returning Id (createPoll L e ttl opts start end' s)"
| "exec L e (Vote pollId encryptedChoice inputProof) s =
     returning (\<lambda>_. Nothing) (vote L e pollId encryptedChoice inputProof s)"
| "exec L e (EndPoll pollId) s = returning (\<lambda>_. Nothing) (endPoll e pollId s)"
| "exec L e (PublishResults pollId clearCounts decryptionProof) s =
     returning (\<lambda>_. Nothing) (publishResults L e pollId clearCounts decryptionProof s)"
| "exec L e GetPollCount s = Done (Id (getPollCount s)) s"
| "exec L e (GetPoll pollId) s = reading (\<lambda>x. x) s (getPoll s pollId)"
| "exec L e (GetEncryptedCounts pollId) s = reading Handles s (getEncryptedCounts s pollId)"
| "exec L e (GetPublicCounts pollId) s = reading Counts s (getPublicCounts s pollId)"
| "exec L e (HasVoted pollId voter) s = reading Flag s (hasVoted s pollId voter)"

text \<open>
  A transaction either commits the storage the call leaves or, when the call reverts,
  keeps the storage it started from: the virtual machine discards the writes of a
  reverted call.
\<close>

definition transact :: "fhe \<Rightarrow> env \<Rightarrow> call \<Rightarrow> state \<Rightarrow> (error + retval) \<times> state" where
  "transact L e c s =
     (case exec L e c s of Done r s' \<Rightarrow> (Inr r, s') | Failed x _ \<Rightarrow> (Inl x, s))"

fun run :: "fhe \<Rightarrow> (env \<times> call) list \<Rightarrow> state \<Rightarrow> state" where
  "run L [] s = s"
| "run L ((e, c) # cs) s = run L cs (snd (transact L e c s))"

text \<open>The states of the contract: what committed transactions make of the deployed one.\<close>

inductive reachable :: "fhe \<Rightarrow> state \<Rightarrow> bool" for L :: fhe where
  reachable_initial: "reachable L initial"
| reachable_step: "reachable L s \<Longrightarrow> exec L e c s = Done r s' \<Longrightarrow> reachable L s'"

text \<open>
  An instance of the library for concrete runs: handles are the plaintexts themselves, an
  input is accepted with any non-empty proof, and a decryption proof is the encoding it
  signs.
\<close>

definition plain :: fhe where
  "plain = \<lparr> asEuint32 = ucast,
     fromExternal = (\<lambda>h p. if p = [] then None else Some h),
     fhe_eq = (\<lambda>a b. if a = b then 1 else 0),
     fhe_select = (\<lambda>c a b. if c = 1 then a else b),
     fhe_add = (\<lambda>a b. a + b),
     checkSignatures = (\<lambda>hs ct p. p = ct) \<rparr>"

subsection \<open>Publicly decryptable ciphertexts\<close>




subsection \<open>A run of the contract\<close>

text \<open>
  The scenario of the test suite, on the library \<open>plain\<close>: a poll with two options is
  created at time 100 for the window from 100 to 3700, two voters vote for option 0 and
  option 1, the poll is ended at 3701 and the counts are published.
\<close>

definition budget_calls :: "(env \<times> call) list" where
  "budget_calls =
     [(\<lparr>timestamp = 100, sender = 1\<rparr>, CreatePoll ''City Budget'' [''Parks'', ''Transit''] 100 3700),
      (\<lparr>timestamp = 101, sender = 2\<rparr>, Vote 0 0 [1]),
      (\<lparr>timestamp = 102, sender = 3\<rparr>, Vote 0 1 [1]),
      (\<lparr>timestamp = 3701, sender = 1\<rparr>, EndPoll 0),
      (\<lparr>timestamp = 3702, sender = 1\<rparr>, PublishResults 0 [1, 1] (abi_encode [1, 1]))]"

definition budget :: "nat \<Rightarrow> state" where
  \<comment> \<open>the storage after the first \<open>k\<close> calls of the scenario\<close>
  "budget k = run plain (take k budget_calls) initial"

text \<open>A poll created at time 5000 for the window from 100 to 200, which is over by then.\<close>

definition stale :: state where
  "stale = run plain
     [(\<lparr>timestamp = 5000, sender = 1\<rparr>, CreatePoll ''Stale'' [''a'', ''b''] 100 200)] initial"




section \<open>Properties\<close>

subsection \<open>Arrays and loops\<close>

declare options_loop.simps [simp del] zero_loop.simps [simp del] vote_loop.simps [simp del]
  decryptable_loop.simps [simp del] handles_loop.simps [simp del] publish_loop.simps [simp del]

lemma get4_set4: "i < 4 \<Longrightarrow> j < 4 \<Longrightarrow> get4 (set4 a i v) j = (if j = i then v else get4 a j)"
  by (cases a) auto

lemma arr4_eqI: "(\<And>j. j < 4 \<Longrightarrow> get4 a j = get4 b j) \<Longrightarrow> a = b"
proof (cases a, cases b)
  fix a0 a1 a2 a3 b0 b1 b2 b3
  assume h: "\<And>j. j < 4 \<Longrightarrow> get4 a j = get4 b j"
    and a: "a = Arr4 a0 a1 a2 a3" and b: "b = Arr4 b0 b1 b2 b3"
  from h [of 0] h [of 1] h [of 2] h [of 3] show "a = b"
    by (simp add: a b)
qed

lemma zero_loop_0:
  "zero_loop L 0 counts allowed =
     (Arr4 (asEuint32 L 0) (asEuint32 L 0) (asEuint32 L 0) (asEuint32 L 0),
      allowed @ [asEuint32 L 0, asEuint32 L 0, asEuint32 L 0, asEuint32 L 0])"
  by (cases counts) (simp add: zero_loop.simps [of L 0] zero_loop.simps [of L "Suc 0"]
      zero_loop.simps [of L "Suc (Suc 0)"] zero_loop.simps [of L "Suc (Suc (Suc 0))"]
      zero_loop.simps [of L "Suc (Suc (Suc (Suc 0)))"] Let_def)

lemma options_loop_result:
  "n \<le> 4 \<Longrightarrow> n \<le> length opts \<Longrightarrow>
   \<exists>a'. options_loop opts n i a = (None, a') \<and>
     (\<forall>j<4. get4 a' j = (if i \<le> j \<and> j < n then opts ! j else get4 a j))"
proof (induction opts n i a rule: options_loop.induct)
  case (1 opts n i a)
  show ?case
  proof (cases "i < n")
    case True
    with 1 obtain a' where a': "options_loop opts n (Suc i) (set4 a i (opts ! i)) = (None, a')"
      "\<forall>j<4. get4 a' j = (if Suc i \<le> j \<and> j < n then opts ! j else get4 (set4 a i (opts ! i)) j)"
      by fastforce
    from True 1 have "options_loop opts n i a = (None, a')"
      by (subst options_loop.simps) (simp add: a')
    moreover have "\<forall>j<4. get4 a' j = (if i \<le> j \<and> j < n then opts ! j else get4 a j)"
    proof (intro allI impI)
      fix j :: nat assume j: "j < 4"
      from True 1(2) have i4: "i < 4" by simp
      consider "j = i" | "Suc i \<le> j" | "j < i" by linarith
      then show "get4 a' j = (if i \<le> j \<and> j < n then opts ! j else get4 a j)"
        using a'(2) j i4 True by cases (simp_all add: get4_set4)
    qed
    ultimately show ?thesis by blast
  next
    case False
    then show ?thesis by (subst options_loop.simps) auto
  qed
qed

lemma vote_loop_result:
  "vote_loop L choice one zero n i counts allowed = (err, counts', allowed') \<Longrightarrow>
   (err = None \<longleftrightarrow> n \<le> 4 \<or> n \<le> i) \<and> (err \<noteq> None \<longrightarrow> err = Some (Panic 0x32)) \<and>
   (n \<le> 4 \<longrightarrow>
     (\<forall>j<4. get4 counts' j =
        (if i \<le> j \<and> j < n
         then fhe_add L (get4 counts j)
                (fhe_select L (fhe_eq L choice (asEuint32 L (of_nat j))) one zero)
         else get4 counts j)) \<and>
     allowed' = allowed @ map (get4 counts') [i..<n])"
proof (induction L choice one zero n i counts allowed rule: vote_loop.induct)
  case (1 L choice one zero n i counts allowed)
  show ?case
  proof (cases "i < n")
    case False
    with 1(2) show ?thesis by (auto simp add: vote_loop.simps [of _ _ _ _ n i])
  next
    case True
    show ?thesis
    proof (cases "i < 4")
      case False
      with True 1(2) show ?thesis by (auto simp add: vote_loop.simps [of _ _ _ _ n i])
    next
      case i4: True
      define c1 where "c1 = set4 counts i (fhe_add L (get4 counts i)
         (fhe_select L (fhe_eq L choice (asEuint32 L (of_nat i))) one zero))"
      have rec: "vote_loop L choice one zero n (Suc i) c1 (allowed @ [get4 c1 i]) = (err, counts', allowed')"
        using 1(2) True i4 by (simp add: vote_loop.simps [of _ _ _ _ n i] Let_def c1_def)
      note ih = 1(1) [OF True i4 refl refl refl rec [unfolded c1_def]]
      have "err = None \<longleftrightarrow> n \<le> 4 \<or> n \<le> i"
        using ih [THEN conjunct1] True i4 by auto
      moreover have "err \<noteq> None \<longrightarrow> err = Some (Panic 0x32)"
        using ih [THEN conjunct2, THEN conjunct1] by simp
      moreover have "n \<le> 4 \<longrightarrow>
     (\<forall>j<4. get4 counts' j =
        (if i \<le> j \<and> j < n
         then fhe_add L (get4 counts j)
                (fhe_select L (fhe_eq L choice (asEuint32 L (of_nat j))) one zero)
         else get4 counts j)) \<and>
     allowed' = allowed @ map (get4 counts') [i..<n]"
      proof (intro impI conjI allI)
        fix j :: nat assume n4: "n \<le> 4" and j: "j < 4"
        consider "j = i" | "Suc i \<le> j" | "j < i" by linarith
        then show "get4 counts' j =
        (if i \<le> j \<and> j < n
         then fhe_add L (get4 counts j)
                (fhe_select L (fhe_eq L choice (asEuint32 L (of_nat j))) one zero)
         else get4 counts j)"
          using ih n4 j i4 True by cases (simp_all add: get4_set4)
      next
        assume n4: "n \<le> 4"
        have "get4 counts' i = get4 (set4 counts i (fhe_add L (get4 counts i)
         (fhe_select L (fhe_eq L choice (asEuint32 L (of_nat i))) one zero))) i"
          using ih n4 i4 by simp
        then show "allowed' = allowed @ map (get4 counts') [i..<n]"
          using ih n4 True by (simp add: upt_conv_Cons)
      qed
      ultimately show ?thesis by blast
    qed
  qed
qed


lemma decryptable_loop_result:
  "decryptable_loop n i counts marked = (err, marked') \<Longrightarrow>
   (err = None \<longleftrightarrow> n \<le> 4 \<or> n \<le> i) \<and>
   (n \<le> 4 \<longrightarrow> marked' = marked @ map (get4 counts) [i..<n])"
proof (induction n i counts marked rule: decryptable_loop.induct)
  case (1 n i counts marked)
  show ?case
  proof (cases "i < n \<and> i < 4")
    case False
    with 1(2) show ?thesis by (auto simp add: decryptable_loop.simps [of n i])
  next
    case True
    then have rec: "decryptable_loop n (Suc i) counts (marked @ [get4 counts i]) = (err, marked')"
      using 1(2) by (simp add: decryptable_loop.simps [of n i])
    from True have "i < n" "i < 4" by simp_all
    note ih = 1(1) [OF this rec]
    from ih True show ?thesis by (auto simp: upt_conv_Cons)
  qed
qed

lemma handles_loop_result:
  "n \<le> 4 \<Longrightarrow> length handles = n \<Longrightarrow>
   handles_loop n i counts handles = Inr (take i handles @ map (get4 counts) [i..<n])"
proof (induction n i counts handles rule: handles_loop.induct)
  case (1 n i counts handles)
  show ?case
  proof (cases "i < n")
    case False
    with 1(3) show ?thesis by (simp add: handles_loop.simps [of n i])
  next
    case True
    with 1(2,3) have g: "i < 4 \<and> i < length handles" by simp
    have "handles_loop n i counts handles =
        handles_loop n (Suc i) counts (handles[i := get4 counts i])"
      using True g by (simp add: handles_loop.simps [of n i])
    also have "\<dots> = Inr (take (Suc i) (handles[i := get4 counts i]) @ map (get4 counts) [Suc i..<n])"
      using 1(1) [OF True g] 1(2,3) by simp
    also have "take (Suc i) (handles[i := get4 counts i]) = take i handles @ [get4 counts i]"
      using g by (simp add: take_Suc_conv_app_nth)
    finally show ?thesis using True by (simp add: upt_conv_Cons)
  qed
qed

lemma handles_loop_panic:
  "handles_loop n i counts handles = Inr hs \<Longrightarrow> n \<le> 4 \<or> n \<le> i"
proof (induction n i counts handles rule: handles_loop.induct)
  case (1 n i counts handles)
  show ?case
  proof (cases "i < n")
    case False
    then show ?thesis by simp
  next
    case True
    show ?thesis
    proof (cases "i < 4 \<and> i < length handles")
      case False
      with True 1(2) show ?thesis by (simp add: handles_loop.simps [of n i])
    next
      case g: True
      then have "handles_loop n (Suc i) counts (handles[i := get4 counts i]) = Inr hs"
        using True 1(2) by (simp add: handles_loop.simps [of n i])
      from 1(1) [OF True g this] g True show ?thesis by auto
    qed
  qed
qed

lemma publish_loop_result:
  "publish_loop clearCounts n i pc = (err, pc') \<Longrightarrow> n \<le> 4 \<Longrightarrow> n \<le> length clearCounts \<Longrightarrow>
   err = None \<and>
   (\<forall>j<4. get4 pc' j = (if i \<le> j \<and> j < n then clearCounts ! j else get4 pc j))"
proof (induction clearCounts n i pc rule: publish_loop.induct)
  case (1 clearCounts n i pc)
  show ?case
  proof (cases "i < n")
    case False
    with 1(2) show ?thesis by (auto simp add: publish_loop.simps [of _ n i])
  next
    case True
    with 1(3,4) have g: "i < 4 \<and> i < length clearCounts" by simp
    have rec: "publish_loop clearCounts n (Suc i) (set4 pc i (clearCounts ! i)) = (err, pc')"
      using True g 1(2) by (simp add: publish_loop.simps [of _ n i])
    note ih = 1(1) [OF True g rec 1(3,4)]
    have "\<forall>j<4. get4 pc' j = (if i \<le> j \<and> j < n then clearCounts ! j else get4 pc j)"
    proof (intro allI impI)
      fix j :: nat assume j: "j < 4"
      consider "j = i" | "Suc i \<le> j" | "j < i" by linarith
      then show "get4 pc' j = (if i \<le> j \<and> j < n then clearCounts ! j else get4 pc j)"
        using ih j g True by cases (simp_all add: get4_set4)
    qed
    with ih show ?thesis by simp
  qed
qed

subsection \<open>What a successful call does\<close>

lemma unat_optionCount: "n \<le> 4 \<Longrightarrow> unat (of_nat n :: uint8) = n"
  by (simp add: unat_of_nat)

lemma createPoll_success:
  assumes "2 \<le> length opts" "length opts \<le> 4" "start < end'" "pollCount s \<noteq> - 1"
  shows "\<exists>a. (\<forall>j<4. get4 a j =
            (if j < length opts then opts ! j else get4 (options (polls s (pollCount s))) j)) \<and>
     createPoll L e ttl opts start end' s =
       Done (pollCount s)
        (s\<lparr>polls := (polls s)(pollCount s :=
               (polls s (pollCount s))\<lparr>title := ttl,
                  optionCount := of_nat (length opts), startTime := start, endTime := end',
                  creator := sender e, options := a,
                  encryptedCounts :=
                    Arr4 (asEuint32 L 0) (asEuint32 L 0) (asEuint32 L 0) (asEuint32 L 0)\<rparr>),
            pollCount := pollCount s + 1,
            events := events s @
              [PollCreated (pollCount s) (sender e) ttl (of_nat (length opts)) start end'],
            allowedThis := allowedThis s @
              [asEuint32 L 0, asEuint32 L 0, asEuint32 L 0, asEuint32 L 0]\<rparr>)"
proof -
  from options_loop_result [OF assms(2) order_refl, of 0 "options (polls s (pollCount s))"]
  obtain a where a: "options_loop opts (length opts) 0 (options (polls s (pollCount s))) = (None, a)"
    "\<forall>j<4. get4 a j = (if 0 \<le> j \<and> j < length opts then opts ! j
        else get4 (options (polls s (pollCount s))) j)"
    by blast
  have "createPoll L e ttl opts start end' s =
       Done (pollCount s)
        (s\<lparr>polls := (polls s)(pollCount s :=
               (polls s (pollCount s))\<lparr>title := ttl,
                  optionCount := of_nat (length opts), startTime := start, endTime := end',
                  creator := sender e, options := a,
                  encryptedCounts :=
                    Arr4 (asEuint32 L 0) (asEuint32 L 0) (asEuint32 L 0) (asEuint32 L 0)\<rparr>),
            pollCount := pollCount s + 1,
            events := events s @
              [PollCreated (pollCount s) (sender e) ttl (of_nat (length opts)) start end'],
            allowedThis := allowedThis s @
              [asEuint32 L 0, asEuint32 L 0, asEuint32 L 0, asEuint32 L 0]\<rparr>)"
    using assms a(1)
    by (simp add: createPoll_def Let_def unat_optionCount zero_loop_0 setPoll_def)
  moreover from a(2) have "\<forall>j<4. get4 a j =
      (if j < length opts then opts ! j else get4 (options (polls s (pollCount s))) j)"
    by simp
  ultimately show ?thesis by blast
qed

lemma createPoll_DoneD:
  "createPoll L e ttl opts start end' s = Done pid s' \<Longrightarrow>
   2 \<le> length opts \<and> length opts \<le> 4 \<and> start < end' \<and> pollCount s \<noteq> - 1 \<and> pid = pollCount s"
  by (auto simp: createPoll_def Let_def split: if_splits prod.splits option.splits)


lemma vote_DoneD:
  assumes "vote L e pollId encryptedChoice inputProof s = Done u s'"
  shows "requirePollExists s pollId \<and> \<not> ended (polls s pollId) \<and>
     ucast (startTime (polls s pollId)) \<le> timestamp e \<and>
     timestamp e < ucast (endTime (polls s pollId)) \<and> \<not> voted s pollId (sender e) \<and>
     unat (optionCount (polls s pollId)) \<le> 4 \<and>
     (\<exists>choice counts.
        fromExternal L encryptedChoice inputProof = Some choice \<and>
        (\<forall>j<4. get4 counts j =
           (if j < unat (optionCount (polls s pollId))
            then fhe_add L (get4 (encryptedCounts (polls s pollId)) j)
                   (fhe_select L (fhe_eq L choice (asEuint32 L (of_nat j)))
                      (asEuint32 L 1) (asEuint32 L 0))
            else get4 (encryptedCounts (polls s pollId)) j)) \<and>
        s' = s\<lparr>polls := (polls s)(pollId := (polls s pollId)\<lparr>encryptedCounts := counts\<rparr>),
                allowedThis := allowedThis s @
                  map (get4 counts) [0..<unat (optionCount (polls s pollId))],
                voted := setVoted (voted s) pollId (sender e),
                events := events s @ [VoteCast pollId (sender e)]\<rparr>)"
proof -
  let ?p = "polls s pollId"
  from assms have pre: "requirePollExists s pollId" "\<not> ended ?p"
    "ucast (startTime ?p) \<le> timestamp e" "timestamp e < ucast (endTime ?p)"
    "\<not> voted s pollId (sender e)"
    by (auto simp: vote_def Let_def split: if_splits)
  from assms pre obtain choice where ch: "fromExternal L encryptedChoice inputProof = Some choice"
    by (cases "fromExternal L encryptedChoice inputProof") (auto simp: vote_def Let_def)
  obtain err counts allowed where lp:
    "vote_loop L choice (asEuint32 L 1) (asEuint32 L 0) (unat (optionCount ?p)) 0
       (encryptedCounts ?p) (allowedThis s) = (err, counts, allowed)"
    by (metis prod_cases3)
  from assms pre ch lp have err: "err = None"
    and s': "s' = ((setPoll s pollId (?p\<lparr>encryptedCounts := counts\<rparr>))\<lparr>allowedThis := allowed\<rparr>)
        \<lparr>voted := setVoted (voted s) pollId (sender e),
         events := events s @ [VoteCast pollId (sender e)]\<rparr>"
    by (auto simp: vote_def Let_def setPoll_def split: option.splits)
  from vote_loop_result [OF lp] err have n4: "unat (optionCount ?p) \<le> 4"
    and cs: "\<forall>j<4. get4 counts j =
           (if 0 \<le> j \<and> j < unat (optionCount ?p)
            then fhe_add L (get4 (encryptedCounts ?p) j)
                   (fhe_select L (fhe_eq L choice (asEuint32 L (of_nat j)))
                      (asEuint32 L 1) (asEuint32 L 0))
            else get4 (encryptedCounts ?p) j)"
    and al: "allowed = allowedThis s @ map (get4 counts) [0..<unat (optionCount ?p)]"
    by auto
  from s' al have "s' = s\<lparr>polls := (polls s)(pollId := ?p\<lparr>encryptedCounts := counts\<rparr>),
                allowedThis := allowedThis s @ map (get4 counts) [0..<unat (optionCount ?p)],
                voted := setVoted (voted s) pollId (sender e),
                events := events s @ [VoteCast pollId (sender e)]\<rparr>"
    by (simp add: setPoll_def)
  moreover from cs have "\<forall>j<4. get4 counts j =
           (if j < unat (optionCount ?p)
            then fhe_add L (get4 (encryptedCounts ?p) j)
                   (fhe_select L (fhe_eq L choice (asEuint32 L (of_nat j)))
                      (asEuint32 L 1) (asEuint32 L 0))
            else get4 (encryptedCounts ?p) j)"
    by simp
  ultimately show ?thesis using pre n4 ch by blast
qed

lemma endPoll_DoneD:
  assumes "endPoll e pollId s = Done u s'"
  shows "requirePollExists s pollId \<and> \<not> ended (polls s pollId) \<and>
     ucast (endTime (polls s pollId)) \<le> timestamp e \<and>
     unat (optionCount (polls s pollId)) \<le> 4 \<and>
     s' = s\<lparr>polls := (polls s)(pollId := (polls s pollId)\<lparr>ended := True, publicReady := True\<rparr>),
             publiclyDecryptable := publiclyDecryptable s @
               map (get4 (encryptedCounts (polls s pollId)))
                 [0..<unat (optionCount (polls s pollId))],
             events := events s @ [PollEnded pollId]\<rparr>"
proof -
  let ?p = "polls s pollId"
  from assms have pre: "requirePollExists s pollId" "\<not> ended ?p"
    "ucast (endTime ?p) \<le> timestamp e"
    by (auto simp: endPoll_def Let_def split: if_splits)
  obtain err marked where lp:
    "decryptable_loop (unat (optionCount ?p)) 0 (encryptedCounts ?p) (publiclyDecryptable s)
       = (err, marked)"
    by (cases "decryptable_loop (unat (optionCount ?p)) 0 (encryptedCounts ?p)
         (publiclyDecryptable s)")
  from assms pre lp have err: "err = None"
    and s': "s' = ((setPoll s pollId (?p\<lparr>ended := True, publicReady := True\<rparr>))
          \<lparr>publiclyDecryptable := marked\<rparr>)\<lparr>events := events s @ [PollEnded pollId]\<rparr>"
    by (auto simp: endPoll_def Let_def setPoll_def split: option.splits)
  from decryptable_loop_result [OF lp] err have n4: "unat (optionCount ?p) \<le> 4"
    and m: "marked = publiclyDecryptable s @ map (get4 (encryptedCounts ?p))
       [0..<unat (optionCount ?p)]"
    by auto
  from s' m pre n4 show ?thesis by (simp add: setPoll_def)
qed

lemma endPoll_success:
  assumes "requirePollExists s pollId" "\<not> ended (polls s pollId)"
    "ucast (endTime (polls s pollId)) \<le> timestamp e" "unat (optionCount (polls s pollId)) \<le> 4"
  shows "endPoll e pollId s = Done ()
     (s\<lparr>polls := (polls s)(pollId := (polls s pollId)\<lparr>ended := True, publicReady := True\<rparr>),
             publiclyDecryptable := publiclyDecryptable s @
               map (get4 (encryptedCounts (polls s pollId)))
                 [0..<unat (optionCount (polls s pollId))],
             events := events s @ [PollEnded pollId]\<rparr>)"
proof -
  let ?p = "polls s pollId"
  obtain err marked where lp:
    "decryptable_loop (unat (optionCount ?p)) 0 (encryptedCounts ?p) (publiclyDecryptable s)
       = (err, marked)"
    by (cases "decryptable_loop (unat (optionCount ?p)) 0 (encryptedCounts ?p)
         (publiclyDecryptable s)")
  from decryptable_loop_result [OF lp] assms(4) have "err = None"
    "marked = publiclyDecryptable s @ map (get4 (encryptedCounts ?p))
       [0..<unat (optionCount ?p)]"
    by simp_all
  with assms lp show ?thesis by (simp add: endPoll_def Let_def setPoll_def)
qed

subsection \<open>The encoding and the checks of publishResults\<close>

lemma list2: "length xs = 2 \<Longrightarrow> [xs ! 0, xs ! Suc 0] = xs"
  by (auto simp: numeral_eq_Suc length_Suc_conv)

lemma list3: "length xs = 3 \<Longrightarrow> [xs ! 0, xs ! Suc 0, xs ! 2] = xs"
  by (auto simp: numeral_eq_Suc length_Suc_conv)

lemma list4: "length xs = 4 \<Longrightarrow> [xs ! 0, xs ! Suc 0, xs ! 2, xs ! 3] = xs"
  by (auto simp: numeral_eq_Suc length_Suc_conv)

lemma encode_cleartexts_eq:
  assumes "length clearCounts = n" "n \<le> 4"
  shows "encode_cleartexts n clearCounts =
     (if 2 \<le> n then Inr (abi_encode clearCounts) else Inl (Panic 0x32))"
proof -
  from assms(2) consider "n = 0" | "n = 1" | "n = 2" | "n = 3" | "n = 4" by arith
  then show ?thesis
    using assms(1) by cases (simp_all add: encode_cleartexts_def list2 list3 list4)
qed

lemma length_abi_encode: "length (abi_encode ws) = 32 * length ws"
  by (induction ws) (simp_all add: abi_encode_def abi_word_def)

lemma publishResults_checked:
  assumes "requirePollExists s pollId" "publicReady (polls s pollId)"
    "\<not> resultsPublished (polls s pollId)"
    "length clearCounts = unat (optionCount (polls s pollId))"
    "2 \<le> unat (optionCount (polls s pollId))" "unat (optionCount (polls s pollId)) \<le> 4"
  shows "\<exists>pc. (\<forall>j<4. get4 pc j =
            (if j < unat (optionCount (polls s pollId)) then clearCounts ! j
             else get4 (publicCounts (polls s pollId)) j)) \<and>
     publishResults L e pollId clearCounts decryptionProof s =
       (if checkSignatures L
             (map (get4 (encryptedCounts (polls s pollId)))
                [0..<unat (optionCount (polls s pollId))])
             (abi_encode clearCounts) decryptionProof
        then Done ()
          (s\<lparr>polls := (polls s)(pollId :=
                (polls s pollId)\<lparr>publicCounts := pc, resultsPublished := True\<rparr>),
              events := events s @ [ResultsPublished pollId]\<rparr>)
        else Failed InvalidProof s)"
proof -
  let ?p = "polls s pollId" and ?n = "unat (optionCount (polls s pollId))"
  obtain err pc where lp: "publish_loop clearCounts ?n 0 (publicCounts ?p) = (err, pc)"
    by (cases "publish_loop clearCounts ?n 0 (publicCounts ?p)")
  from publish_loop_result [OF lp assms(6)] assms(4) have err: "err = None"
    and pc: "\<forall>j<4. get4 pc j = (if j < ?n then clearCounts ! j else get4 (publicCounts ?p) j)"
    by simp_all
  have hs: "handles_loop ?n 0 (encryptedCounts ?p) (replicate ?n 0) =
      Inr (map (get4 (encryptedCounts ?p)) [0..<?n])"
    using handles_loop_result [OF assms(6), of "replicate ?n 0" 0 "encryptedCounts ?p"] by simp
  have enc: "encode_cleartexts ?n clearCounts = Inr (abi_encode clearCounts)"
    using encode_cleartexts_eq [OF assms(4) assms(6)] assms(5) by simp
  have "publishResults L e pollId clearCounts decryptionProof s =
       (if checkSignatures L (map (get4 (encryptedCounts ?p)) [0..<?n])
             (abi_encode clearCounts) decryptionProof
        then Done ()
          (s\<lparr>polls := (polls s)(pollId := ?p\<lparr>publicCounts := pc, resultsPublished := True\<rparr>),
              events := events s @ [ResultsPublished pollId]\<rparr>)
        else Failed InvalidProof s)"
    using assms(1-4) hs enc lp err
    by (simp add: publishResults_def Let_def setPoll_def)
  with pc show ?thesis by blast
qed

lemma publishResults_DoneD:
  assumes "publishResults L e pollId clearCounts decryptionProof s = Done u s'"
  shows "requirePollExists s pollId \<and> publicReady (polls s pollId) \<and>
     \<not> resultsPublished (polls s pollId) \<and>
     length clearCounts = unat (optionCount (polls s pollId)) \<and>
     2 \<le> unat (optionCount (polls s pollId)) \<and> unat (optionCount (polls s pollId)) \<le> 4 \<and>
     checkSignatures L
       (map (get4 (encryptedCounts (polls s pollId))) [0..<unat (optionCount (polls s pollId))])
       (abi_encode clearCounts) decryptionProof \<and>
     (\<exists>pc. (\<forall>j<4. get4 pc j =
            (if j < unat (optionCount (polls s pollId)) then clearCounts ! j
             else get4 (publicCounts (polls s pollId)) j)) \<and>
        s' = s\<lparr>polls := (polls s)(pollId :=
                (polls s pollId)\<lparr>publicCounts := pc, resultsPublished := True\<rparr>),
              events := events s @ [ResultsPublished pollId]\<rparr>)"
proof -
  let ?p = "polls s pollId" and ?n = "unat (optionCount (polls s pollId))"
  from assms have pre: "requirePollExists s pollId" "publicReady ?p" "\<not> resultsPublished ?p"
    "length clearCounts = ?n"
    by (auto simp: publishResults_def Let_def split: if_splits)
  from assms pre obtain hs where hs: "handles_loop ?n 0 (encryptedCounts ?p) (replicate ?n 0) = Inr hs"
    by (cases "handles_loop ?n 0 (encryptedCounts ?p) (replicate ?n 0)")
       (auto simp: publishResults_def Let_def)
  from handles_loop_panic [OF hs] have n4: "?n \<le> 4" by auto
  from assms pre hs obtain ct where ct: "encode_cleartexts ?n clearCounts = Inr ct"
    by (cases "encode_cleartexts ?n clearCounts") (auto simp: publishResults_def Let_def)
  with encode_cleartexts_eq [OF pre(4) n4] have n2: "2 \<le> ?n"
    by (auto split: if_splits)
  from publishResults_checked [OF pre n2 n4, where L = L and e = e and decryptionProof = decryptionProof]
  obtain pc where pc: "\<forall>j<4. get4 pc j =
            (if j < ?n then clearCounts ! j else get4 (publicCounts ?p) j)"
    and eq: "publishResults L e pollId clearCounts decryptionProof s =
       (if checkSignatures L (map (get4 (encryptedCounts ?p)) [0..<?n])
             (abi_encode clearCounts) decryptionProof
        then Done ()
          (s\<lparr>polls := (polls s)(pollId := ?p\<lparr>publicCounts := pc, resultsPublished := True\<rparr>),
              events := events s @ [ResultsPublished pollId]\<rparr>)
        else Failed InvalidProof s)"
    by blast
  from eq assms have cs: "checkSignatures L (map (get4 (encryptedCounts ?p)) [0..<?n])
             (abi_encode clearCounts) decryptionProof"
    and s': "s' = s\<lparr>polls := (polls s)(pollId := ?p\<lparr>publicCounts := pc, resultsPublished := True\<rparr>),
              events := events s @ [ResultsPublished pollId]\<rparr>"
    by (auto split: if_splits)
  from pc s' have "\<exists>pc. (\<forall>j<4. get4 pc j =
            (if j < ?n then clearCounts ! j else get4 (publicCounts ?p) j)) \<and>
        s' = s\<lparr>polls := (polls s)(pollId := ?p\<lparr>publicCounts := pc, resultsPublished := True\<rparr>),
              events := events s @ [ResultsPublished pollId]\<rparr>"
    by blast
  with pre n2 n4 cs show ?thesis by blast
qed


subsection \<open>The successful calls, by cases\<close>

lemma exec_Done_cases [consumes 1, case_names create vote endPoll publish read]:
  assumes "exec L e c s = Done r s'"
  obtains
    (create) ttl opts start end' a where
      "c = CreatePoll ttl opts start end'" "r = Id (pollCount s)"
      "2 \<le> length opts" "length opts \<le> 4" "start < end'" "pollCount s \<noteq> - 1"
      "\<forall>j<4. get4 a j =
         (if j < length opts then opts ! j else get4 (options (polls s (pollCount s))) j)"
      "s' = s\<lparr>polls := (polls s)(pollCount s :=
               (polls s (pollCount s))\<lparr>title := ttl,
                  optionCount := of_nat (length opts), startTime := start, endTime := end',
                  creator := sender e, options := a,
                  encryptedCounts :=
                    Arr4 (asEuint32 L 0) (asEuint32 L 0) (asEuint32 L 0) (asEuint32 L 0)\<rparr>),
            pollCount := pollCount s + 1,
            events := events s @
              [PollCreated (pollCount s) (sender e) ttl (of_nat (length opts)) start end'],
            allowedThis := allowedThis s @
              [asEuint32 L 0, asEuint32 L 0, asEuint32 L 0, asEuint32 L 0]\<rparr>"
  | (vote) pollId encryptedChoice inputProof counts where
      "c = Vote pollId encryptedChoice inputProof"
      "requirePollExists s pollId" "\<not> ended (polls s pollId)"
      "unat (optionCount (polls s pollId)) \<le> 4"
      "s' = s\<lparr>polls := (polls s)(pollId := (polls s pollId)\<lparr>encryptedCounts := counts\<rparr>),
                allowedThis := allowedThis s @
                  map (get4 counts) [0..<unat (optionCount (polls s pollId))],
                voted := setVoted (voted s) pollId (sender e),
                events := events s @ [VoteCast pollId (sender e)]\<rparr>"
  | (endPoll) pollId where
      "c = EndPoll pollId"
      "requirePollExists s pollId" "\<not> ended (polls s pollId)"
      "ucast (endTime (polls s pollId)) \<le> timestamp e"
      "unat (optionCount (polls s pollId)) \<le> 4"
      "s' = s\<lparr>polls := (polls s)(pollId := (polls s pollId)\<lparr>ended := True, publicReady := True\<rparr>),
             publiclyDecryptable := publiclyDecryptable s @
               map (get4 (encryptedCounts (polls s pollId)))
                 [0..<unat (optionCount (polls s pollId))],
             events := events s @ [PollEnded pollId]\<rparr>"
  | (publish) pollId clearCounts decryptionProof pc where
      "c = PublishResults pollId clearCounts decryptionProof"
      "requirePollExists s pollId" "publicReady (polls s pollId)"
      "\<not> resultsPublished (polls s pollId)"
      "s' = s\<lparr>polls := (polls s)(pollId :=
                (polls s pollId)\<lparr>publicCounts := pc, resultsPublished := True\<rparr>),
              events := events s @ [ResultsPublished pollId]\<rparr>"
  | (read) "s' = s"
proof (cases c)
  case (CreatePoll ttl opts start end')
  with assms obtain pid where d: "createPoll L e ttl opts start end' s = Done pid s'" "r = Id pid"
    by (auto simp: returning_def split: outcome.splits)
  from createPoll_DoneD [OF d(1)] have pre: "2 \<le> length opts" "length opts \<le> 4" "start < end'"
    "pollCount s \<noteq> - 1" "pid = pollCount s"
    by simp_all
  from createPoll_success [OF pre(1-4), of L e ttl] d(1) pre(5) CreatePoll d(2) create pre(1-4)
  show ?thesis by auto
next
  case (Vote pollId encryptedChoice inputProof)
  with assms obtain u where d: "vote L e pollId encryptedChoice inputProof s = Done u s'"
    by (auto simp: returning_def split: outcome.splits)
  from vote_DoneD [OF d] Vote vote show ?thesis by blast
next
  case (EndPoll pollId)
  with assms obtain u where d: "endPoll e pollId s = Done u s'"
    by (auto simp: returning_def split: outcome.splits)
  from endPoll_DoneD [OF d] EndPoll endPoll show ?thesis by blast
next
  case (PublishResults pollId clearCounts decryptionProof)
  with assms obtain u where d: "publishResults L e pollId clearCounts decryptionProof s = Done u s'"
    by (auto simp: returning_def split: outcome.splits)
  from publishResults_DoneD [OF d] PublishResults publish show ?thesis by blast
next
  case GetPollCount
  with assms read show ?thesis by simp
next
  case (GetPoll pollId)
  with assms read show ?thesis by (auto simp: reading_def split: sum.splits)
next
  case (GetEncryptedCounts pollId)
  with assms read show ?thesis by (auto simp: reading_def split: sum.splits)
next
  case (GetPublicCounts pollId)
  with assms read show ?thesis by (auto simp: reading_def split: sum.splits)
next
  case (HasVoted pollId voter)
  with assms read show ?thesis by (auto simp: reading_def split: sum.splits)
qed

lemma less_inc_iff: "x \<noteq> - 1 \<Longrightarrow> y < x + 1 \<longleftrightarrow> y < x \<or> y = x" for x y :: uint256
  by (metis inc_less_eq_iff not_le le_less)

subsection \<open>Invariants of the reachable states\<close>

lemma reachable_polls:
  "reachable L s \<Longrightarrow>
   (if requirePollExists s pollId
    then 2 \<le> unat (optionCount (polls s pollId)) \<and> unat (optionCount (polls s pollId)) \<le> 4 \<and>
         startTime (polls s pollId) < endTime (polls s pollId)
    else polls s pollId = zeroPoll)"
proof (induction arbitrary: pollId rule: reachable.induct)
  case reachable_initial
  show ?case by (simp add: initial_def requirePollExists_def)
next
  case (reachable_step s e c r s')
  from reachable_step(2) show ?case
  proof (cases rule: exec_Done_cases)
    case (create ttl opts start end' a)
    with reachable_step(3) [of pollId] show ?thesis
      by (auto simp: requirePollExists_def less_inc_iff unat_optionCount)
  next
    case (vote pid encryptedChoice inputProof counts)
    with reachable_step(3) [of pollId] show ?thesis
      by (auto simp: requirePollExists_def)
  next
    case (endPoll pid)
    with reachable_step(3) [of pollId] show ?thesis
      by (auto simp: requirePollExists_def)
  next
    case (publish pid clearCounts decryptionProof pc)
    with reachable_step(3) [of pollId] show ?thesis
      by (auto simp: requirePollExists_def)
  next
    case read
    with reachable_step(3) [of pollId] show ?thesis by simp
  qed
qed

lemma reachable_flags:
  "reachable L s \<Longrightarrow>
   ended (polls s pollId) = publicReady (polls s pollId) \<and>
   (resultsPublished (polls s pollId) \<longrightarrow> publicReady (polls s pollId))"
proof (induction arbitrary: pollId rule: reachable.induct)
  case reachable_initial
  show ?case by (simp add: initial_def zeroPoll_def)
next
  case (reachable_step s e c r s')
  from reachable_step(2) reachable_step(3) [of pollId] show ?case
    by (cases rule: exec_Done_cases) auto
qed


lemma reachable_created_ids:
  "reachable L s \<Longrightarrow> PollCreated pollId c t n a b \<in> set (events s) \<Longrightarrow> pollId < pollCount s"
proof (induction rule: reachable.induct)
  case reachable_initial
  then show ?case by (simp add: initial_def)
next
  case (reachable_step s e c r s')
  from reachable_step(2) reachable_step(3,4) show ?case
    by (cases rule: exec_Done_cases) (auto simp: less_inc_iff)
qed





lemma reachable_run: "reachable L s \<Longrightarrow> reachable L (run L cs s)"
proof (induction cs arbitrary: s)
  case Nil
  then show ?case by simp
next
  case (Cons x cs)
  obtain e c where x: "x = (e, c)" by (cases x)
  have "reachable L (snd (transact L e c s))"
    using Cons(2) by (auto simp: transact_def split: outcome.splits intro: reachable_step)
  from Cons(1) [OF this] x show ?case by simp
qed

lemma reachable_budget: "reachable plain (budget k)"
  by (simp add: budget_def reachable_run reachable_initial)

subsection \<open>Sequences of transactions\<close>


lemma run_invariant:
  assumes step: "\<And>e c s r s'. P s \<Longrightarrow> exec L e c s = Done r s' \<Longrightarrow> P s'"
    and init: "P s"
  shows "P (run L cs s)"
  using init
proof (induction cs arbitrary: s)
  case Nil
  then show ?case by simp
next
  case (Cons x cs)
  obtain e c where x: "x = (e, c)" by (cases x)
  have "P (snd (transact L e c s))"
    using Cons(2) step [of s e c] by (auto simp: transact_def split: outcome.splits)
  from Cons(1) [OF this] x show ?case by simp
qed

lemma step_flags:
  assumes "exec L e c s = Done r s'"
  shows "(ended (polls s pollId) \<longrightarrow> ended (polls s' pollId)) \<and>
     (publicReady (polls s pollId) \<longrightarrow> publicReady (polls s' pollId)) \<and>
     (resultsPublished (polls s pollId) \<longrightarrow> resultsPublished (polls s' pollId))"
  using assms by (cases rule: exec_Done_cases) auto


subsection \<open>Where a call fails\<close>

lemma createPoll_FailedD:
  "createPoll L e ttl opts start end' s = Failed x s1 \<Longrightarrow> s1 = s"
proof (cases "2 \<le> length opts \<and> length opts \<le> 4 \<and> start < end' \<and> pollCount s \<noteq> - 1")
  case True
  assume f: "createPoll L e ttl opts start end' s = Failed x s1"
  from True createPoll_success [of opts start end' s L e ttl] f show ?thesis by auto
next
  case False
  assume "createPoll L e ttl opts start end' s = Failed x s1"
  with False show ?thesis by (auto simp: createPoll_def Let_def split: if_splits)
qed

lemma vote_FailedD:
  assumes "vote L e pollId encryptedChoice inputProof s = Failed x s1"
    "unat (optionCount (polls s pollId)) \<le> 4"
  shows "s1 = s"
proof (cases "fromExternal L encryptedChoice inputProof")
  case None
  with assms(1) show ?thesis by (auto simp: vote_def Let_def split: if_splits)
next
  case (Some choice)
  obtain err counts allowed where lp:
    "vote_loop L choice (asEuint32 L 1) (asEuint32 L 0) (unat (optionCount (polls s pollId))) 0
       (encryptedCounts (polls s pollId)) (allowedThis s) = (err, counts, allowed)"
    by (metis prod_cases3)
  from vote_loop_result [OF lp] assms(2) have "err = None" by simp
  with assms(1) Some lp show ?thesis by (auto simp: vote_def Let_def split: if_splits)
qed

lemma endPoll_FailedD:
  assumes "endPoll e pollId s = Failed x s1" "unat (optionCount (polls s pollId)) \<le> 4"
  shows "s1 = s"
proof -
  obtain err marked where lp:
    "decryptable_loop (unat (optionCount (polls s pollId))) 0 (encryptedCounts (polls s pollId))
       (publiclyDecryptable s) = (err, marked)"
    by (cases "decryptable_loop (unat (optionCount (polls s pollId))) 0
         (encryptedCounts (polls s pollId)) (publiclyDecryptable s)")
  from decryptable_loop_result [OF lp] assms(2) have "err = None" by simp
  with assms(1) lp show ?thesis by (auto simp: endPoll_def Let_def split: if_splits)
qed

lemma publishResults_FailedD:
  assumes "publishResults L e pollId clearCounts decryptionProof s = Failed x s1"
  shows "s1 = s"
proof -
  let ?p = "polls s pollId" and ?n = "unat (optionCount (polls s pollId))"
  show ?thesis
  proof (cases "requirePollExists s pollId \<and> publicReady ?p \<and> \<not> resultsPublished ?p \<and>
      length clearCounts = ?n")
    case False
    with assms show ?thesis by (auto simp: publishResults_def Let_def split: if_splits)
  next
    case pre: True
    show ?thesis
    proof (cases "handles_loop ?n 0 (encryptedCounts ?p) (replicate ?n 0)")
      case (Inl a)
      with assms pre show ?thesis by (simp add: publishResults_def Let_def)
    next
      case (Inr hs)
      from handles_loop_panic [OF Inr] have n4: "?n \<le> 4" by auto
      obtain err pc where lp: "publish_loop clearCounts ?n 0 (publicCounts ?p) = (err, pc)"
        by (cases "publish_loop clearCounts ?n 0 (publicCounts ?p)")
      from publish_loop_result [OF lp n4] pre have "err = None" by simp
      with assms pre Inr lp show ?thesis
        by (auto simp: publishResults_def Let_def split: sum.splits if_splits)
    qed
  qed
qed

lemma exec_FailedD:
  assumes "reachable L s" "exec L e c s = Failed x s1"
  shows "s1 = s"
proof (cases c)
  case (CreatePoll ttl opts start end')
  with assms(2) createPoll_FailedD [of L e ttl opts start end' s x s1] show ?thesis
    by (auto simp: returning_def split: outcome.splits)
next
  case (Vote pollId encryptedChoice inputProof)
  with assms(2) have f: "vote L e pollId encryptedChoice inputProof s = Failed x s1"
    by (auto simp: returning_def split: outcome.splits)
  show ?thesis
  proof (cases "requirePollExists s pollId")
    case True
    with reachable_polls [OF assms(1), of pollId] vote_FailedD [OF f] show ?thesis by simp
  next
    case False
    with f show ?thesis by (simp add: vote_def)
  qed
next
  case (EndPoll pollId)
  with assms(2) have f: "endPoll e pollId s = Failed x s1"
    by (auto simp: returning_def split: outcome.splits)
  show ?thesis
  proof (cases "requirePollExists s pollId")
    case True
    with reachable_polls [OF assms(1), of pollId] endPoll_FailedD [OF f] show ?thesis by simp
  next
    case False
    with f show ?thesis by (simp add: endPoll_def)
  qed
next
  case (PublishResults pollId clearCounts decryptionProof)
  with assms(2) publishResults_FailedD [of L e pollId clearCounts decryptionProof s x s1]
  show ?thesis by (auto simp: returning_def split: outcome.splits)
next
  case GetPollCount
  with assms(2) show ?thesis by simp
next
  case (GetPoll pollId)
  with assms(2) show ?thesis by (auto simp: reading_def split: sum.splits)
next
  case (GetEncryptedCounts pollId)
  with assms(2) show ?thesis by (auto simp: reading_def split: sum.splits)
next
  case (GetPublicCounts pollId)
  with assms(2) show ?thesis by (auto simp: reading_def split: sum.splits)
next
  case (HasVoted pollId voter)
  with assms(2) show ?thesis by (auto simp: reading_def split: sum.splits)
qed

subsection \<open>Times and frozen polls\<close>

lemma uint_ucast64: "uint (ucast (w :: uint64) :: uint256) = uint w"
  by (simp add: uint_up_ucast is_up)

lemma ucast64_less: "(ucast (a :: uint64) :: uint256) < ucast b \<longleftrightarrow> a < b"
  by (simp add: word_less_def uint_ucast64)


lemma vote_expired:
  "requirePollExists s pollId \<Longrightarrow> \<not> ended (polls s pollId) \<Longrightarrow>
   ucast (startTime (polls s pollId)) \<le> timestamp e \<Longrightarrow>
   ucast (endTime (polls s pollId)) \<le> timestamp e \<Longrightarrow>
   vote L e pollId encryptedChoice inputProof s = Failed PollExpired s"
  by (auto simp: vote_def Let_def)

subsection \<open>Evaluation of concrete runs\<close>

lemmas evaluate =
  budget_def budget_calls_def plain_def initial_def zeroPoll_def transact_def returning_def
  reading_def Let_def requirePollExists_def setPoll_def setVoted_def abi_encode_def abi_word_def
  createPoll_def options_loop.simps zero_loop.simps vote_def vote_loop.simps
  endPoll_def decryptable_loop.simps publishResults_def handles_loop.simps
  encode_cleartexts_def publish_loop.simps

subsection \<open>C1: the tally update of a vote\<close>

text \<open>
  C1. A successful \<open>vote\<close> on a poll with \<open>optionCount = n\<close> decodes the external input to
  a ciphertext and leaves, in every slot \<open>i < n\<close> of the poll's encrypted tally,
  \<open>add (old slot i) (select (eq ciphertext (encrypt i)) (encrypt 1) (encrypt 0))\<close>; the
  slots from \<open>n\<close> on keep their handles. The compare-and-select-add runs for every slot
  below \<open>n\<close>: the \<open>n\<close> new handles are passed to \<^verbatim>\<open>FHE.allowThis\<close> in slot order, whatever the
  choice is. No other poll is written.
\<close>

theorem vote_tally_update:
  assumes "vote L e pollId encryptedChoice inputProof s = Done u s'"
  shows "\<exists>ciphertext.
     fromExternal L encryptedChoice inputProof = Some ciphertext \<and>
     (\<forall>i<4. get4 (encryptedCounts (polls s' pollId)) i =
        (if i < unat (optionCount (polls s pollId))
         then fhe_add L (get4 (encryptedCounts (polls s pollId)) i)
                (fhe_select L (fhe_eq L ciphertext (asEuint32 L (of_nat i)))
                   (asEuint32 L 1) (asEuint32 L 0))
         else get4 (encryptedCounts (polls s pollId)) i)) \<and>
     allowedThis s' = allowedThis s @
        map (\<lambda>i. fhe_add L (get4 (encryptedCounts (polls s pollId)) i)
                (fhe_select L (fhe_eq L ciphertext (asEuint32 L (of_nat i)))
                   (asEuint32 L 1) (asEuint32 L 0)))
          [0..<unat (optionCount (polls s pollId))] \<and>
     unat (optionCount (polls s pollId)) \<le> 4 \<and>
     optionCount (polls s' pollId) = optionCount (polls s pollId) \<and>
     (\<forall>other. other \<noteq> pollId \<longrightarrow> polls s' other = polls s other)"
proof -
  let ?n = "unat (optionCount (polls s pollId))"
  from vote_DoneD [OF assms] obtain choice counts where
    n4: "?n \<le> 4" and ch: "fromExternal L encryptedChoice inputProof = Some choice"
    and cs: "\<forall>j<4. get4 counts j =
           (if j < ?n
            then fhe_add L (get4 (encryptedCounts (polls s pollId)) j)
                   (fhe_select L (fhe_eq L choice (asEuint32 L (of_nat j)))
                      (asEuint32 L 1) (asEuint32 L 0))
            else get4 (encryptedCounts (polls s pollId)) j)"
    and s': "s' = s\<lparr>polls := (polls s)(pollId := (polls s pollId)\<lparr>encryptedCounts := counts\<rparr>),
                allowedThis := allowedThis s @ map (get4 counts) [0..<?n],
                voted := setVoted (voted s) pollId (sender e),
                events := events s @ [VoteCast pollId (sender e)]\<rparr>"
    by blast
  have "map (get4 counts) [0..<?n] =
      map (\<lambda>i. fhe_add L (get4 (encryptedCounts (polls s pollId)) i)
                (fhe_select L (fhe_eq L choice (asEuint32 L (of_nat i)))
                   (asEuint32 L 1) (asEuint32 L 0))) [0..<?n]"
    using cs n4 by simp
  with s' have al: "allowedThis s' = allowedThis s @
        map (\<lambda>i. fhe_add L (get4 (encryptedCounts (polls s pollId)) i)
                (fhe_select L (fhe_eq L choice (asEuint32 L (of_nat i)))
                   (asEuint32 L 1) (asEuint32 L 0))) [0..<?n]"
    by simp
  from s' have ec: "encryptedCounts (polls s' pollId) = counts"
    and oc: "optionCount (polls s' pollId) = optionCount (polls s pollId)"
    and fr: "\<forall>other. other \<noteq> pollId \<longrightarrow> polls s' other = polls s other"
    by simp_all
  from ch cs al n4 oc fr show ?thesis
    unfolding ec by blast
qed

theorem vote_tally_update_witness:
  "vote plain \<lparr>timestamp = 102, sender = 3\<rparr> 0 1 [1] (budget 2) = Done () (budget 3) \<and>
   unat (optionCount (polls (budget 2) 0)) = 2 \<and>
   encryptedCounts (polls (budget 2) 0) = Arr4 1 0 0 0 \<and>
   encryptedCounts (polls (budget 3) 0) = Arr4 1 1 0 0 \<and>
   (\<exists>ciphertext. fromExternal plain 1 [1] = Some ciphertext \<and>
      get4 (encryptedCounts (polls (budget 3) 0)) 1 =
        fhe_add plain (get4 (encryptedCounts (polls (budget 2) 0)) 1)
          (fhe_select plain (fhe_eq plain ciphertext (asEuint32 plain 1))
             (asEuint32 plain 1) (asEuint32 plain 0)))"
proof -
  have h: "vote plain \<lparr>timestamp = 102, sender = 3\<rparr> 0 1 [1] (budget 2) = Done () (budget 3)"
    by (simp add: evaluate)
  have "unat (optionCount (polls (budget 2) 0)) = 2"
    "encryptedCounts (polls (budget 2) 0) = Arr4 1 0 0 0"
    "encryptedCounts (polls (budget 3) 0) = Arr4 1 1 0 0"
    by (simp_all add: evaluate)
  with h vote_tally_update [OF h] show ?thesis
    by (simp add: plain_def)
qed

subsection \<open>C3: the preconditions of a vote\<close>

text \<open>
  C3. \<open>vote\<close> checks its preconditions in order, each with its own failure: an unassigned
  poll id fails \<open>NotFound\<close>; then a poll whose \<open>ended\<close> flag is set fails \<open>PollClosed\<close>;
  then a time before \<open>startTime\<close> fails \<open>NotStarted\<close>; then a time at or after \<open>endTime\<close>
  fails \<open>PollExpired\<close>, also when the poll was never ended; then a voter who holds a
  receipt fails \<open>DuplicateVote\<close>. A vote succeeds only when all of these hold; it then
  records the receipt of the voter, so that the same ballot sent again fails
  \<open>DuplicateVote\<close>. The receipt is the last write: a call that stops earlier, also in the
  tally update, has written no receipt.
\<close>

theorem vote_preconditions:
  "(\<not> pollId < pollCount s \<longrightarrow>
      vote L e pollId encryptedChoice inputProof s = Failed NotFound s) \<and>
   (pollId < pollCount s \<and> ended (polls s pollId) \<longrightarrow>
      vote L e pollId encryptedChoice inputProof s = Failed PollClosed s) \<and>
   (pollId < pollCount s \<and> \<not> ended (polls s pollId) \<and>
    timestamp e < ucast (startTime (polls s pollId)) \<longrightarrow>
      vote L e pollId encryptedChoice inputProof s = Failed NotStarted s) \<and>
   (pollId < pollCount s \<and> \<not> ended (polls s pollId) \<and>
    ucast (startTime (polls s pollId)) \<le> timestamp e \<and>
    ucast (endTime (polls s pollId)) \<le> timestamp e \<longrightarrow>
      vote L e pollId encryptedChoice inputProof s = Failed PollExpired s) \<and>
   (pollId < pollCount s \<and> \<not> ended (polls s pollId) \<and>
    ucast (startTime (polls s pollId)) \<le> timestamp e \<and>
    timestamp e < ucast (endTime (polls s pollId)) \<and> voted s pollId (sender e) \<longrightarrow>
      vote L e pollId encryptedChoice inputProof s = Failed DuplicateVote s) \<and>
   (\<forall>s'. vote L e pollId encryptedChoice inputProof s = Done () s' \<longrightarrow>
      pollId < pollCount s \<and> \<not> ended (polls s pollId) \<and>
      ucast (startTime (polls s pollId)) \<le> timestamp e \<and>
      timestamp e < ucast (endTime (polls s pollId)) \<and> \<not> voted s pollId (sender e) \<and>
      voted s' = setVoted (voted s) pollId (sender e) \<and>
      hasVoted s' pollId (sender e) = Inr True \<and>
      vote L e pollId encryptedChoice inputProof s' = Failed DuplicateVote s') \<and>
   (\<forall>x s1. vote L e pollId encryptedChoice inputProof s = Failed x s1 \<longrightarrow> voted s1 = voted s)"
proof (intro conjI allI impI)
  fix s'
  assume d: "vote L e pollId encryptedChoice inputProof s = Done () s'"
  note D = vote_DoneD [OF d]
  from D show "pollId < pollCount s" by (simp add: requirePollExists_def)
  from D show "\<not> ended (polls s pollId)" "ucast (startTime (polls s pollId)) \<le> timestamp e"
    "timestamp e < ucast (endTime (polls s pollId))" "\<not> voted s pollId (sender e)"
    by simp_all
  from D obtain counts where s': "s' = s\<lparr>polls := (polls s)(pollId := (polls s pollId)\<lparr>encryptedCounts := counts\<rparr>),
                allowedThis := allowedThis s @
                  map (get4 counts) [0..<unat (optionCount (polls s pollId))],
                voted := setVoted (voted s) pollId (sender e),
                events := events s @ [VoteCast pollId (sender e)]\<rparr>"
    by blast
  from s' show v: "voted s' = setVoted (voted s) pollId (sender e)" by simp
  from s' D show "hasVoted s' pollId (sender e) = Inr True"
    by (simp add: hasVoted_def requirePollExists_def setVoted_def)
  from s' D show "vote L e pollId encryptedChoice inputProof s' = Failed DuplicateVote s'"
    by (simp add: vote_def requirePollExists_def setVoted_def Let_def)
next
  fix x s1
  assume "vote L e pollId encryptedChoice inputProof s = Failed x s1"
  then show "voted s1 = voted s"
    by (auto simp: vote_def Let_def setPoll_def split: if_splits option.splits prod.splits)
qed (auto simp: vote_def requirePollExists_def Let_def)

theorem vote_preconditions_witness:
  "vote plain \<lparr>timestamp = 101, sender = 2\<rparr> 7 0 [1] (budget 1) = Failed NotFound (budget 1) \<and>
   vote plain \<lparr>timestamp = 3702, sender = 4\<rparr> 0 0 [1] (budget 4) = Failed PollClosed (budget 4) \<and>
   vote plain \<lparr>timestamp = 99, sender = 2\<rparr> 0 0 [1] (budget 1) = Failed NotStarted (budget 1) \<and>
   \<not> ended (polls (budget 3) 0) \<and>
   vote plain \<lparr>timestamp = 3700, sender = 4\<rparr> 0 0 [1] (budget 3) = Failed PollExpired (budget 3) \<and>
   vote plain \<lparr>timestamp = 103, sender = 2\<rparr> 0 0 [1] (budget 2) = Failed DuplicateVote (budget 2) \<and>
   vote plain \<lparr>timestamp = 101, sender = 2\<rparr> 0 0 [1] (budget 1) = Done () (budget 2) \<and>
   hasVoted (budget 2) 0 2 = Inr True \<and>
   vote plain \<lparr>timestamp = 101, sender = 2\<rparr> 0 0 [1] (budget 2) = Failed DuplicateVote (budget 2)"
proof -
  have d: "vote plain \<lparr>timestamp = 101, sender = 2\<rparr> 0 0 [1] (budget 1) = Done () (budget 2)"
    by (simp add: evaluate)
  have h: "\<not> (7::uint256) < pollCount (budget 1)"
    "(0::uint256) < pollCount (budget 4) \<and> ended (polls (budget 4) 0)"
    "(0::uint256) < pollCount (budget 1) \<and> \<not> ended (polls (budget 1) 0) \<and>
       timestamp \<lparr>timestamp = 99, sender = 2\<rparr> < ucast (startTime (polls (budget 1) 0))"
    "(0::uint256) < pollCount (budget 3) \<and> \<not> ended (polls (budget 3) 0) \<and>
       ucast (startTime (polls (budget 3) 0)) \<le> timestamp \<lparr>timestamp = 3700, sender = 4\<rparr> \<and>
       ucast (endTime (polls (budget 3) 0)) \<le> timestamp \<lparr>timestamp = 3700, sender = 4\<rparr>"
    "(0::uint256) < pollCount (budget 2) \<and> \<not> ended (polls (budget 2) 0) \<and>
       ucast (startTime (polls (budget 2) 0)) \<le> timestamp \<lparr>timestamp = 103, sender = 2\<rparr> \<and>
       timestamp \<lparr>timestamp = 103, sender = 2\<rparr> < ucast (endTime (polls (budget 2) 0)) \<and>
       voted (budget 2) 0 (sender \<lparr>timestamp = 103, sender = 2\<rparr>)"
    by (simp_all add: evaluate)
  note w1 = vote_preconditions [of 7 "budget 1" plain "\<lparr>timestamp = 101, sender = 2\<rparr>" 0 "[1]",
      THEN conjunct1, THEN mp, OF h(1)]
  note w2 = vote_preconditions [of 0 "budget 4" plain "\<lparr>timestamp = 3702, sender = 4\<rparr>" 0 "[1]",
      THEN conjunct2, THEN conjunct1, THEN mp, OF h(2)]
  note w3 = vote_preconditions [of 0 "budget 1" plain "\<lparr>timestamp = 99, sender = 2\<rparr>" 0 "[1]",
      THEN conjunct2, THEN conjunct2, THEN conjunct1, THEN mp, OF h(3)]
  note w4 = vote_preconditions [of 0 "budget 3" plain "\<lparr>timestamp = 3700, sender = 4\<rparr>" 0 "[1]",
      THEN conjunct2, THEN conjunct2, THEN conjunct2, THEN conjunct1, THEN mp, OF h(4)]
  note w5 = vote_preconditions [of 0 "budget 2" plain "\<lparr>timestamp = 103, sender = 2\<rparr>" 0 "[1]",
      THEN conjunct2, THEN conjunct2, THEN conjunct2, THEN conjunct2, THEN conjunct1,
      THEN mp, OF h(5)]
  note w6 = vote_preconditions [of 0 "budget 1" plain "\<lparr>timestamp = 101, sender = 2\<rparr>" 0 "[1]",
      THEN conjunct2, THEN conjunct2, THEN conjunct2, THEN conjunct2, THEN conjunct2,
      THEN conjunct1, THEN spec, THEN mp, OF d]
  from h(4) have "\<not> ended (polls (budget 3) 0)" by simp
  with w1 w2 w3 w4 w5 w6 d show ?thesis by simp
qed

subsection \<open>C5: ending a poll\<close>




subsection \<open>C2: the decryption proof binds the cleartexts to the poll's ciphertexts\<close>

text \<open>
  C2. In a reachable state, for a poll that is public, not yet published and given as many
  cleartexts as it has options, \<open>publishResults\<close> hands \<^verbatim>\<open>FHE.checkSignatures\<close> the handles
  of the first \<open>optionCount\<close> encrypted tally slots of this poll, in slot order, and the
  encoding that concatenates the \<open>optionCount\<close> cleartexts in order, one 32-byte word each and
  nothing more. It publishes exactly when the proof authenticates this pair; otherwise it
  fails \<open>InvalidProof\<close> having written nothing, and the transaction leaves the storage as it
  was.
\<close>

theorem publishResults_binding:
  assumes "reachable L s" "pollId < pollCount s" "publicReady (polls s pollId)"
    "\<not> resultsPublished (polls s pollId)"
    "length clearCounts = unat (optionCount (polls s pollId))"
  shows
   "abi_encode clearCounts = concat (map abi_word clearCounts) \<and>
    length (abi_encode clearCounts) = 32 * unat (optionCount (polls s pollId)) \<and>
    (checkSignatures L
       (map (get4 (encryptedCounts (polls s pollId))) [0..<unat (optionCount (polls s pollId))])
       (abi_encode clearCounts) decryptionProof \<longrightarrow>
     (\<exists>s'. publishResults L e pollId clearCounts decryptionProof s = Done () s' \<and>
        resultsPublished (polls s' pollId))) \<and>
    (\<not> checkSignatures L
       (map (get4 (encryptedCounts (polls s pollId))) [0..<unat (optionCount (polls s pollId))])
       (abi_encode clearCounts) decryptionProof \<longrightarrow>
     publishResults L e pollId clearCounts decryptionProof s = Failed InvalidProof s \<and>
     transact L e (PublishResults pollId clearCounts decryptionProof) s = (Inl InvalidProof, s))"
proof -
  let ?n = "unat (optionCount (polls s pollId))"
  from assms(2) have ex: "requirePollExists s pollId" by (simp add: requirePollExists_def)
  with reachable_polls [OF assms(1), of pollId] have n: "2 \<le> ?n" "?n \<le> 4" by simp_all
  from publishResults_checked [OF ex assms(3,4,5) n, where L = L and e = e
      and decryptionProof = decryptionProof]
  obtain pc where eq: "publishResults L e pollId clearCounts decryptionProof s =
       (if checkSignatures L (map (get4 (encryptedCounts (polls s pollId))) [0..<?n])
             (abi_encode clearCounts) decryptionProof
        then Done ()
          (s\<lparr>polls := (polls s)(pollId :=
                (polls s pollId)\<lparr>publicCounts := pc, resultsPublished := True\<rparr>),
              events := events s @ [ResultsPublished pollId]\<rparr>)
        else Failed InvalidProof s)"
    by blast
  have "abi_encode clearCounts = concat (map abi_word clearCounts)"
    by (simp add: abi_encode_def)
  moreover have "length (abi_encode clearCounts) = 32 * ?n"
    using assms(5) by (simp add: length_abi_encode)
  ultimately show ?thesis
    using eq by (simp add: transact_def returning_def)
qed

theorem publishResults_binding_witness:
  "publishResults plain \<lparr>timestamp = 3702, sender = 1\<rparr> 0 [1, 1] (abi_encode [1, 1]) (budget 4)
     = Done () (budget 5) \<and>
   publishResults plain \<lparr>timestamp = 3702, sender = 1\<rparr> 0 [2, 1] (abi_encode [1, 1]) (budget 4)
     = Failed InvalidProof (budget 4) \<and>
   map (get4 (encryptedCounts (polls (budget 4) 0))) [0..<unat (optionCount (polls (budget 4) 0))]
     = [1, 1] \<and>
   length (abi_encode [2, 1]) = 64"
proof -
  have h: "(0::uint256) < pollCount (budget 4)" "publicReady (polls (budget 4) 0)"
    "\<not> resultsPublished (polls (budget 4) 0)"
    "length [2, 1 :: uint32] = unat (optionCount (polls (budget 4) 0))"
    by (simp_all add: evaluate)
  have c: "\<not> checkSignatures plain
       (map (get4 (encryptedCounts (polls (budget 4) 0)))
          [0..<unat (optionCount (polls (budget 4) 0))])
       (abi_encode [2, 1]) (abi_encode [1, 1])"
    by (simp add: evaluate)
  have v: "publishResults plain \<lparr>timestamp = 3702, sender = 1\<rparr> 0 [1, 1] (abi_encode [1, 1])
       (budget 4) = Done () (budget 5)"
    "map (get4 (encryptedCounts (polls (budget 4) 0)))
       [0..<unat (optionCount (polls (budget 4) 0))] = [1, 1]"
    "length (abi_encode [2, 1]) = 64"
    by (simp_all add: evaluate upt_rec)
  note w = publishResults_binding [OF reachable_budget h,
      where decryptionProof = "abi_encode [1, 1]" and e = "\<lparr>timestamp = 3702, sender = 1\<rparr>",
      THEN conjunct2, THEN conjunct2, THEN conjunct2, THEN mp, OF c, THEN conjunct1]
  from w v show ?thesis by simp
qed

subsection \<open>C4: the checks and the effect of publishResults\<close>

text \<open>
  C4. In a reachable state and for an assigned poll id, \<open>publishResults\<close> fails \<open>NotReady\<close>
  when \<open>publicReady\<close> is false and \<open>AlreadyPublished\<close> when \<open>resultsPublished\<close> is true; for a
  poll that is public and not published it fails \<open>LengthMismatch\<close> when the number of
  cleartexts differs from \<open>optionCount\<close>, whatever the proof and whatever the library says
  about it. A successful call stores the cleartexts in the slots below \<open>optionCount\<close> of the
  public tally, leaves the other slots, and sets \<open>resultsPublished\<close>; every later
  \<open>publishResults\<close> on the poll then fails \<open>AlreadyPublished\<close> and the public tally stays as
  it is.
\<close>

theorem publishResults_checks:
  assumes "reachable L s" "pollId < pollCount s"
  shows
   "(\<not> publicReady (polls s pollId) \<longrightarrow>
       publishResults L e pollId clearCounts decryptionProof s = Failed NotReady s) \<and>
    (resultsPublished (polls s pollId) \<longrightarrow>
       publishResults L e pollId clearCounts decryptionProof s = Failed AlreadyPublished s) \<and>
    (publicReady (polls s pollId) \<and> \<not> resultsPublished (polls s pollId) \<and>
     length clearCounts \<noteq> unat (optionCount (polls s pollId)) \<longrightarrow>
       (\<forall>L' proof'. publishResults L' e pollId clearCounts proof' s = Failed LengthMismatch s)) \<and>
    (\<forall>s'. publishResults L e pollId clearCounts decryptionProof s = Done () s' \<longrightarrow>
       (\<forall>i<4. get4 (publicCounts (polls s' pollId)) i =
          (if i < unat (optionCount (polls s pollId)) then clearCounts ! i
           else get4 (publicCounts (polls s pollId)) i)) \<and>
       resultsPublished (polls s' pollId) \<and>
       (\<forall>L' e' counts' proof'.
          publishResults L' e' pollId counts' proof' s' = Failed AlreadyPublished s' \<and>
          publicCounts (polls (snd (transact L' e' (PublishResults pollId counts' proof') s'))
             pollId) = publicCounts (polls s' pollId)))"
proof -
  have c1: "\<not> publicReady (polls s pollId) \<longrightarrow>
       publishResults L e pollId clearCounts decryptionProof s = Failed NotReady s"
    using assms(2) by (simp add: publishResults_def requirePollExists_def Let_def)
  have c2: "resultsPublished (polls s pollId) \<longrightarrow>
       publishResults L e pollId clearCounts decryptionProof s = Failed AlreadyPublished s"
    using assms(2) reachable_flags [OF assms(1), of pollId]
    by (simp add: publishResults_def requirePollExists_def Let_def)
  have c3: "publicReady (polls s pollId) \<and> \<not> resultsPublished (polls s pollId) \<and>
     length clearCounts \<noteq> unat (optionCount (polls s pollId)) \<longrightarrow>
       (\<forall>L' proof'. publishResults L' e pollId clearCounts proof' s = Failed LengthMismatch s)"
    using assms(2) by (simp add: publishResults_def requirePollExists_def Let_def)
  have c4: "\<forall>s'. publishResults L e pollId clearCounts decryptionProof s = Done () s' \<longrightarrow>
       (\<forall>i<4. get4 (publicCounts (polls s' pollId)) i =
          (if i < unat (optionCount (polls s pollId)) then clearCounts ! i
           else get4 (publicCounts (polls s pollId)) i)) \<and>
       resultsPublished (polls s' pollId) \<and>
       (\<forall>L' e' counts' proof'.
          publishResults L' e' pollId counts' proof' s' = Failed AlreadyPublished s' \<and>
          publicCounts (polls (snd (transact L' e' (PublishResults pollId counts' proof') s'))
             pollId) = publicCounts (polls s' pollId))"
  proof (intro allI impI)
    fix s'
    assume d: "publishResults L e pollId clearCounts decryptionProof s = Done () s'"
    from publishResults_DoneD [OF d] obtain pc where
      pc: "\<forall>j<4. get4 pc j =
            (if j < unat (optionCount (polls s pollId)) then clearCounts ! j
             else get4 (publicCounts (polls s pollId)) j)"
      and s': "s' = s\<lparr>polls := (polls s)(pollId :=
                (polls s pollId)\<lparr>publicCounts := pc, resultsPublished := True\<rparr>),
              events := events s @ [ResultsPublished pollId]\<rparr>"
      and rdy: "publicReady (polls s pollId)"
      by blast
    from s' pc have p1: "\<forall>i<4. get4 (publicCounts (polls s' pollId)) i =
          (if i < unat (optionCount (polls s pollId)) then clearCounts ! i
           else get4 (publicCounts (polls s pollId)) i)"
      by simp
    from s' have p2: "resultsPublished (polls s' pollId)" by simp
    from s' rdy assms(2)
    have f: "\<forall>L' e' counts' proof'.
       publishResults L' e' pollId counts' proof' s' = Failed AlreadyPublished s'"
      by (simp add: publishResults_def requirePollExists_def Let_def)
    then have p3: "\<forall>L' e' counts' proof'.
          publishResults L' e' pollId counts' proof' s' = Failed AlreadyPublished s' \<and>
          publicCounts (polls (snd (transact L' e' (PublishResults pollId counts' proof') s'))
             pollId) = publicCounts (polls s' pollId)"
      by (simp add: transact_def returning_def)
    from p1 p2 p3 show "(\<forall>i<4. get4 (publicCounts (polls s' pollId)) i =
          (if i < unat (optionCount (polls s pollId)) then clearCounts ! i
           else get4 (publicCounts (polls s pollId)) i)) \<and>
       resultsPublished (polls s' pollId) \<and>
       (\<forall>L' e' counts' proof'.
          publishResults L' e' pollId counts' proof' s' = Failed AlreadyPublished s' \<and>
          publicCounts (polls (snd (transact L' e' (PublishResults pollId counts' proof') s'))
             pollId) = publicCounts (polls s' pollId))"
      by (intro conjI)
  qed
  from c1 c2 c3 c4 show ?thesis by (intro conjI)
qed

theorem publishResults_checks_witness:
  "publishResults plain \<lparr>timestamp = 200, sender = 1\<rparr> 0 [1, 1] (abi_encode [1, 1]) (budget 3)
     = Failed NotReady (budget 3) \<and>
   publishResults plain \<lparr>timestamp = 3800, sender = 1\<rparr> 0 [5, 5] (abi_encode [5, 5]) (budget 5)
     = Failed AlreadyPublished (budget 5) \<and>
   publishResults plain \<lparr>timestamp = 3702, sender = 1\<rparr> 0 [1, 1, 0] (abi_encode [1, 1, 0]) (budget 4)
     = Failed LengthMismatch (budget 4) \<and>
   publishResults plain \<lparr>timestamp = 3702, sender = 1\<rparr> 0 [1, 1] (abi_encode [1, 1]) (budget 4)
     = Done () (budget 5) \<and>
   publicCounts (polls (budget 5) 0) = Arr4 1 1 0 0 \<and>
   resultsPublished (polls (budget 5) 0)"
proof -
  have h: "(0::uint256) < pollCount (budget 3)" "(0::uint256) < pollCount (budget 4)"
    "(0::uint256) < pollCount (budget 5)"
    "\<not> publicReady (polls (budget 3) 0)" "resultsPublished (polls (budget 5) 0)"
    "publicReady (polls (budget 4) 0) \<and> \<not> resultsPublished (polls (budget 4) 0) \<and>
       length [1, 1, 0 :: uint32] \<noteq> unat (optionCount (polls (budget 4) 0))"
    by (simp_all add: evaluate)
  have v: "publishResults plain \<lparr>timestamp = 3702, sender = 1\<rparr> 0 [1, 1] (abi_encode [1, 1])
       (budget 4) = Done () (budget 5)"
    "publicCounts (polls (budget 5) 0) = Arr4 1 1 0 0"
    by (simp_all add: evaluate)
  note w1 = publishResults_checks [OF reachable_budget h(1),
      where e = "\<lparr>timestamp = 200, sender = 1\<rparr>" and clearCounts = "[1, 1]"
        and decryptionProof = "abi_encode [1, 1]",
      THEN conjunct1, THEN mp, OF h(4)]
  note w2 = publishResults_checks [OF reachable_budget h(3),
      where e = "\<lparr>timestamp = 3800, sender = 1\<rparr>" and clearCounts = "[5, 5]"
        and decryptionProof = "abi_encode [5, 5]",
      THEN conjunct2, THEN conjunct1, THEN mp, OF h(5)]
  note w3 = publishResults_checks [OF reachable_budget h(2),
      where e = "\<lparr>timestamp = 3702, sender = 1\<rparr>" and clearCounts = "[1, 1, 0]"
        and decryptionProof = "abi_encode [1, 1, 0]",
      THEN conjunct2, THEN conjunct2, THEN conjunct1, THEN mp, OF h(6), THEN spec, THEN spec,
      of plain "abi_encode [1, 1, 0]"]
  from w1 w2 w3 v h(5) show ?thesis by simp
qed

subsection \<open>C6: the lifecycle flags\<close>

text \<open>
  C6. In every reachable state every poll has \<open>ended = publicReady\<close>, and \<open>resultsPublished\<close>
  only with \<open>publicReady\<close>: its flags are those of exactly one of the states Open (none set),
  Closed and publicly readable (\<open>ended\<close> and \<open>publicReady\<close>) and Published (all three). Each
  flag is monotone: once set, it is set after every further sequence of transactions,
  whether they succeed or fail.
\<close>

theorem lifecycle_flags:
  assumes "reachable L s"
  shows
   "ended (polls s pollId) = publicReady (polls s pollId) \<and>
    (resultsPublished (polls s pollId) \<longrightarrow> publicReady (polls s pollId)) \<and>
    ((\<not> ended (polls s pollId) \<and> \<not> publicReady (polls s pollId) \<and>
        \<not> resultsPublished (polls s pollId)) \<or>
     (ended (polls s pollId) \<and> publicReady (polls s pollId) \<and>
        \<not> resultsPublished (polls s pollId)) \<or>
     (ended (polls s pollId) \<and> publicReady (polls s pollId) \<and>
        resultsPublished (polls s pollId))) \<and>
    (\<forall>cs. (ended (polls s pollId) \<longrightarrow> ended (polls (run L cs s) pollId)) \<and>
          (publicReady (polls s pollId) \<longrightarrow> publicReady (polls (run L cs s) pollId)) \<and>
          (resultsPublished (polls s pollId) \<longrightarrow>
             resultsPublished (polls (run L cs s) pollId)))"
proof -
  note f = reachable_flags [OF assms, of pollId]
  have m: "\<forall>cs. (ended (polls s pollId) \<longrightarrow> ended (polls (run L cs s) pollId)) \<and>
          (publicReady (polls s pollId) \<longrightarrow> publicReady (polls (run L cs s) pollId)) \<and>
          (resultsPublished (polls s pollId) \<longrightarrow>
             resultsPublished (polls (run L cs s) pollId))"
  proof
    fix cs
    have "(ended (polls s pollId) \<longrightarrow> ended (polls (run L cs s) pollId)) \<and>
          (publicReady (polls s pollId) \<longrightarrow> publicReady (polls (run L cs s) pollId)) \<and>
          (resultsPublished (polls s pollId) \<longrightarrow>
             resultsPublished (polls (run L cs s) pollId))"
      by (rule run_invariant [where P = "\<lambda>t.
            (ended (polls s pollId) \<longrightarrow> ended (polls t pollId)) \<and>
            (publicReady (polls s pollId) \<longrightarrow> publicReady (polls t pollId)) \<and>
            (resultsPublished (polls s pollId) \<longrightarrow> resultsPublished (polls t pollId))"])
         (use step_flags in blast)+
    then show "(ended (polls s pollId) \<longrightarrow> ended (polls (run L cs s) pollId)) \<and>
          (publicReady (polls s pollId) \<longrightarrow> publicReady (polls (run L cs s) pollId)) \<and>
          (resultsPublished (polls s pollId) \<longrightarrow>
             resultsPublished (polls (run L cs s) pollId))" .
  qed
  from f have "(\<not> ended (polls s pollId) \<and> \<not> publicReady (polls s pollId) \<and>
        \<not> resultsPublished (polls s pollId)) \<or>
     (ended (polls s pollId) \<and> publicReady (polls s pollId) \<and>
        \<not> resultsPublished (polls s pollId)) \<or>
     (ended (polls s pollId) \<and> publicReady (polls s pollId) \<and>
        resultsPublished (polls s pollId))"
    by blast
  with f m show ?thesis by (intro conjI) simp_all
qed

theorem lifecycle_flags_witness:
  "\<not> ended (polls (budget 3) 0) \<and> \<not> publicReady (polls (budget 3) 0) \<and>
   \<not> resultsPublished (polls (budget 3) 0) \<and>
   ended (polls (budget 4) 0) \<and> publicReady (polls (budget 4) 0) \<and>
   \<not> resultsPublished (polls (budget 4) 0) \<and>
   ended (polls (budget 5) 0) \<and> publicReady (polls (budget 5) 0) \<and>
   resultsPublished (polls (budget 5) 0) \<and>
   ended (polls (run plain (drop 4 budget_calls) (budget 4)) 0)"
proof -
  have v: "\<not> ended (polls (budget 3) 0)" "\<not> publicReady (polls (budget 3) 0)"
   "\<not> resultsPublished (polls (budget 3) 0)"
   "ended (polls (budget 4) 0)" "publicReady (polls (budget 4) 0)"
   "\<not> resultsPublished (polls (budget 4) 0)"
   "ended (polls (budget 5) 0)" "publicReady (polls (budget 5) 0)"
   "resultsPublished (polls (budget 5) 0)"
    by (simp_all add: evaluate)
  note w = lifecycle_flags [OF reachable_budget, of 4 0, THEN conjunct2, THEN conjunct2,
      THEN conjunct2, THEN spec, of "drop 4 budget_calls", THEN conjunct1, THEN mp, OF v(4)]
  from v w show ?thesis by simp
qed

subsection \<open>C9: a failing call leaves no effect\<close>

text \<open>
  C9. A transaction that fails, whatever the operation, the state and the error, leaves the
  whole storage as it was before the call: the poll count, every poll, every receipt, the
  event log and the access-control writes. In a reachable state this does not even rest on
  the rollback: the contract has written nothing at the point where it fails.
\<close>

theorem failure_is_atomic:
  "(\<forall>x. fst (transact L e c s) = Inl x \<longrightarrow> snd (transact L e c s) = s) \<and>
   (reachable L s \<longrightarrow> (\<forall>x s1. exec L e c s = Failed x s1 \<longrightarrow> s1 = s))"
proof (intro conjI allI impI)
  fix x
  assume "fst (transact L e c s) = Inl x"
  then show "snd (transact L e c s) = s"
    by (cases "exec L e c s") (simp_all add: transact_def)
next
  fix x s1
  assume "reachable L s" "exec L e c s = Failed x s1"
  then show "s1 = s" by (rule exec_FailedD)
qed

theorem failure_is_atomic_witness:
  "fst (transact plain \<lparr>timestamp = 103, sender = 2\<rparr> (Vote 0 1 [1]) (budget 3)) = Inl DuplicateVote \<and>
   snd (transact plain \<lparr>timestamp = 103, sender = 2\<rparr> (Vote 0 1 [1]) (budget 3)) = budget 3 \<and>
   exec plain \<lparr>timestamp = 200, sender = 9\<rparr> (EndPoll 0) (budget 3) = Failed StillActive (budget 3)"
proof -
  have h: "fst (transact plain \<lparr>timestamp = 103, sender = 2\<rparr> (Vote 0 1 [1]) (budget 3))
      = Inl DuplicateVote"
    by (simp add: evaluate)
  have "\<exists>s1. exec plain \<lparr>timestamp = 200, sender = 9\<rparr> (EndPoll 0) (budget 3) = Failed StillActive s1"
    by (simp add: evaluate)
  then obtain s1 where
    f: "exec plain \<lparr>timestamp = 200, sender = 9\<rparr> (EndPoll 0) (budget 3) = Failed StillActive s1"
    by blast
  note w1 = failure_is_atomic [where L = plain and e = "\<lparr>timestamp = 103, sender = 2\<rparr>"
      and c = "Vote 0 1 [1]" and s = "budget 3",
      THEN conjunct1, THEN spec, THEN mp, OF h]
  note w2 = failure_is_atomic [where L = plain and e = "\<lparr>timestamp = 200, sender = 9\<rparr>"
      and c = "EndPoll 0" and s = "budget 3",
      THEN conjunct2, THEN mp, OF reachable_budget, THEN spec, THEN spec, THEN mp, OF f]
  from h w1 w2 f show ?thesis by simp
qed

subsection \<open>C7: the encrypted tally is frozen once the poll is ended\<close>




subsection \<open>C8: creating a poll\<close>

text \<open>
  C8. \<open>createPoll\<close> fails with \<open>InvalidConfiguration\<close> exactly when it is given fewer than 2 or
  more than 4 options or an \<open>endTime\<close> that is not after \<open>startTime\<close>. Otherwise, in a
  reachable state whose poll counter can still be incremented, it returns the poll count as
  the new id: an id that was not assigned and that no earlier \<open>PollCreated\<close> event carries.
  It stores title, options, option count, window and creator, with no lifecycle flag set
  (Open), sets all four encrypted tally slots to the encryption of zero, leaves every other
  poll, and emits \<open>PollCreated\<close> with the id, the creator, the title, the option count and
  the window.
\<close>

theorem createPoll_contract:
  assumes "reachable L s"
  shows
   "((\<exists>x s1. createPoll L e ttl opts start end' s = Failed x s1 \<and> InvalidConfiguration x) \<longleftrightarrow>
       length opts < 2 \<or> 4 < length opts \<or> end' \<le> start) \<and>
    (2 \<le> length opts \<and> length opts \<le> 4 \<and> start < end' \<and> pollCount s \<noteq> - 1 \<longrightarrow>
       (\<exists>s'. createPoll L e ttl opts start end' s = Done (pollCount s) s' \<and>
          \<not> requirePollExists s (pollCount s) \<and> requirePollExists s' (pollCount s) \<and>
          (\<forall>c t n a b. PollCreated (pollCount s) c t n a b \<notin> set (events s)) \<and>
          pollCount s' = pollCount s + 1 \<and>
          (\<forall>other. other \<noteq> pollCount s \<longrightarrow> polls s' other = polls s other) \<and>
          title (polls s' (pollCount s)) = ttl \<and>
          (\<forall>i<4. get4 (options (polls s' (pollCount s))) i =
             (if i < length opts then opts ! i else [])) \<and>
          unat (optionCount (polls s' (pollCount s))) = length opts \<and>
          startTime (polls s' (pollCount s)) = start \<and>
          endTime (polls s' (pollCount s)) = end' \<and>
          creator (polls s' (pollCount s)) = sender e \<and>
          \<not> ended (polls s' (pollCount s)) \<and> \<not> publicReady (polls s' (pollCount s)) \<and>
          \<not> resultsPublished (polls s' (pollCount s)) \<and>
          encryptedCounts (polls s' (pollCount s)) =
            Arr4 (asEuint32 L 0) (asEuint32 L 0) (asEuint32 L 0) (asEuint32 L 0) \<and>
          publicCounts (polls s' (pollCount s)) = Arr4 0 0 0 0 \<and>
          events s' = events s @
            [PollCreated (pollCount s) (sender e) ttl (of_nat (length opts)) start end']))"
proof -
  have c1: "(\<exists>x s1. createPoll L e ttl opts start end' s = Failed x s1 \<and> InvalidConfiguration x)
      \<longleftrightarrow> length opts < 2 \<or> 4 < length opts \<or> end' \<le> start"
  proof (cases "2 \<le> length opts \<and> length opts \<le> 4 \<and> start < end'")
    case False
    then show ?thesis
      by (auto simp: createPoll_def InvalidConfiguration_def Let_def not_less)
  next
    case True
    show ?thesis
    proof (cases "pollCount s = - 1")
      case overflow: True
      with True show ?thesis
        by (auto simp: createPoll_def InvalidConfiguration_def Let_def)
    next
      case False
      with True createPoll_success [of opts start end' s L e ttl] show ?thesis by auto
    qed
  qed
  have c2: "2 \<le> length opts \<and> length opts \<le> 4 \<and> start < end' \<and> pollCount s \<noteq> - 1 \<longrightarrow>
       (\<exists>s'. createPoll L e ttl opts start end' s = Done (pollCount s) s' \<and>
          \<not> requirePollExists s (pollCount s) \<and> requirePollExists s' (pollCount s) \<and>
          (\<forall>c t n a b. PollCreated (pollCount s) c t n a b \<notin> set (events s)) \<and>
          pollCount s' = pollCount s + 1 \<and>
          (\<forall>other. other \<noteq> pollCount s \<longrightarrow> polls s' other = polls s other) \<and>
          title (polls s' (pollCount s)) = ttl \<and>
          (\<forall>i<4. get4 (options (polls s' (pollCount s))) i =
             (if i < length opts then opts ! i else [])) \<and>
          unat (optionCount (polls s' (pollCount s))) = length opts \<and>
          startTime (polls s' (pollCount s)) = start \<and>
          endTime (polls s' (pollCount s)) = end' \<and>
          creator (polls s' (pollCount s)) = sender e \<and>
          \<not> ended (polls s' (pollCount s)) \<and> \<not> publicReady (polls s' (pollCount s)) \<and>
          \<not> resultsPublished (polls s' (pollCount s)) \<and>
          encryptedCounts (polls s' (pollCount s)) =
            Arr4 (asEuint32 L 0) (asEuint32 L 0) (asEuint32 L 0) (asEuint32 L 0) \<and>
          publicCounts (polls s' (pollCount s)) = Arr4 0 0 0 0 \<and>
          events s' = events s @
            [PollCreated (pollCount s) (sender e) ttl (of_nat (length opts)) start end'])"
  proof
    assume h: "2 \<le> length opts \<and> length opts \<le> 4 \<and> start < end' \<and> pollCount s \<noteq> - 1"
    then have h': "2 \<le> length opts" "length opts \<le> 4" "start < end'" "pollCount s \<noteq> - 1"
      by simp_all
    have nex: "\<not> requirePollExists s (pollCount s)" by (simp add: requirePollExists_def)
    with reachable_polls [OF assms, of "pollCount s"] have z: "polls s (pollCount s) = zeroPoll"
      by simp
    from reachable_created_ids [OF assms, of "pollCount s"]
    have fresh: "\<forall>c t n a b. PollCreated (pollCount s) c t n a b \<notin> set (events s)"
      by auto
    from createPoll_success [OF h', of L e ttl] obtain a where
      a: "\<forall>j<4. get4 a j =
            (if j < length opts then opts ! j else get4 (options (polls s (pollCount s))) j)"
      and eq: "createPoll L e ttl opts start end' s =
       Done (pollCount s)
        (s\<lparr>polls := (polls s)(pollCount s :=
               (polls s (pollCount s))\<lparr>title := ttl,
                  optionCount := of_nat (length opts), startTime := start, endTime := end',
                  creator := sender e, options := a,
                  encryptedCounts :=
                    Arr4 (asEuint32 L 0) (asEuint32 L 0) (asEuint32 L 0) (asEuint32 L 0)\<rparr>),
            pollCount := pollCount s + 1,
            events := events s @
              [PollCreated (pollCount s) (sender e) ttl (of_nat (length opts)) start end'],
            allowedThis := allowedThis s @
              [asEuint32 L 0, asEuint32 L 0, asEuint32 L 0, asEuint32 L 0]\<rparr>)"
      by blast
    from a z have a': "\<forall>i<4. get4 a i = (if i < length opts then opts ! i else [])"
    proof (intro allI impI)
      fix i :: nat assume "i < 4"
      then consider "i = 0" | "i = 1" | "i = 2" | "i = 3" by linarith
      then have "get4 (options zeroPoll) i = []" by cases (simp_all add: zeroPoll_def)
      with a z \<open>i < 4\<close> show "get4 a i = (if i < length opts then opts ! i else [])" by simp
    qed
    show "\<exists>s'. createPoll L e ttl opts start end' s = Done (pollCount s) s' \<and>
          \<not> requirePollExists s (pollCount s) \<and> requirePollExists s' (pollCount s) \<and>
          (\<forall>c t n a b. PollCreated (pollCount s) c t n a b \<notin> set (events s)) \<and>
          pollCount s' = pollCount s + 1 \<and>
          (\<forall>other. other \<noteq> pollCount s \<longrightarrow> polls s' other = polls s other) \<and>
          title (polls s' (pollCount s)) = ttl \<and>
          (\<forall>i<4. get4 (options (polls s' (pollCount s))) i =
             (if i < length opts then opts ! i else [])) \<and>
          unat (optionCount (polls s' (pollCount s))) = length opts \<and>
          startTime (polls s' (pollCount s)) = start \<and>
          endTime (polls s' (pollCount s)) = end' \<and>
          creator (polls s' (pollCount s)) = sender e \<and>
          \<not> ended (polls s' (pollCount s)) \<and> \<not> publicReady (polls s' (pollCount s)) \<and>
          \<not> resultsPublished (polls s' (pollCount s)) \<and>
          encryptedCounts (polls s' (pollCount s)) =
            Arr4 (asEuint32 L 0) (asEuint32 L 0) (asEuint32 L 0) (asEuint32 L 0) \<and>
          publicCounts (polls s' (pollCount s)) = Arr4 0 0 0 0 \<and>
          events s' = events s @
            [PollCreated (pollCount s) (sender e) ttl (of_nat (length opts)) start end']"
      unfolding eq
      using nex fresh a' h'
      by (simp add: z zeroPoll_def requirePollExists_def less_inc_iff unat_optionCount)
  qed
  from c1 c2 show ?thesis by (intro conjI)
qed

theorem createPoll_contract_witness:
  "createPoll plain \<lparr>timestamp = 100, sender = 1\<rparr> ''City Budget'' [''Parks'', ''Transit'']
      100 3700 (budget 0) = Done 0 (budget 1) \<and>
   pollCount (budget 0) = 0 \<and> pollCount (budget 1) = 1 \<and>
   options (polls (budget 1) 0) = Arr4 ''Parks'' ''Transit'' [] [] \<and>
   optionCount (polls (budget 1) 0) = 2 \<and>
   encryptedCounts (polls (budget 1) 0) = Arr4 0 0 0 0 \<and>
   events (budget 1) = [PollCreated 0 1 ''City Budget'' 2 100 3700] \<and>
   (\<exists>x s1. createPoll plain \<lparr>timestamp = 100, sender = 1\<rparr> ''One'' [''Only''] 100 3700 (budget 0)
        = Failed x s1 \<and> InvalidConfiguration x) \<and>
   (\<exists>x s1. createPoll plain \<lparr>timestamp = 100, sender = 1\<rparr> ''Five'' [''a'', ''b'', ''c'', ''d'', ''e'']
        100 3700 (budget 0) = Failed x s1 \<and> InvalidConfiguration x) \<and>
   (\<exists>x s1. createPoll plain \<lparr>timestamp = 100, sender = 1\<rparr> ''Empty window'' [''a'', ''b'']
        100 100 (budget 0) = Failed x s1 \<and> InvalidConfiguration x)"
proof -
  have h: "2 \<le> length [''Parks'', ''Transit''] \<and> length [''Parks'', ''Transit''] \<le> 4 \<and>
      (100 :: uint64) < 3700 \<and> pollCount (budget 0) \<noteq> - 1"
    by (simp add: evaluate)
  have v: "createPoll plain \<lparr>timestamp = 100, sender = 1\<rparr> ''City Budget'' [''Parks'', ''Transit'']
      100 3700 (budget 0) = Done 0 (budget 1)"
    "pollCount (budget 0) = 0" "pollCount (budget 1) = 1"
    "options (polls (budget 1) 0) = Arr4 ''Parks'' ''Transit'' [] []"
    "optionCount (polls (budget 1) 0) = 2"
    "encryptedCounts (polls (budget 1) 0) = Arr4 0 0 0 0"
    "events (budget 1) = [PollCreated 0 1 ''City Budget'' 2 100 3700]"
    by (simp_all add: evaluate)
  note w0 = createPoll_contract [OF reachable_budget, where opts = "[''Parks'', ''Transit'']"
      and start = 100 and end' = 3700 and e = "\<lparr>timestamp = 100, sender = 1\<rparr>"
      and ttl = "''City Budget''", THEN conjunct2, THEN mp, OF h]
  have w1: "\<exists>x s1. createPoll plain \<lparr>timestamp = 100, sender = 1\<rparr> ''One'' [''Only''] 100 3700
        (budget 0) = Failed x s1 \<and> InvalidConfiguration x"
    by (rule createPoll_contract [OF reachable_budget, THEN conjunct1, THEN iffD2]) simp
  have w2: "\<exists>x s1. createPoll plain \<lparr>timestamp = 100, sender = 1\<rparr> ''Five''
        [''a'', ''b'', ''c'', ''d'', ''e''] 100 3700 (budget 0) = Failed x s1 \<and>
        InvalidConfiguration x"
    by (rule createPoll_contract [OF reachable_budget, THEN conjunct1, THEN iffD2]) simp
  have w3: "\<exists>x s1. createPoll plain \<lparr>timestamp = 100, sender = 1\<rparr> ''Empty window''
        [''a'', ''b''] 100 100 (budget 0) = Failed x s1 \<and> InvalidConfiguration x"
    by (rule createPoll_contract [OF reachable_budget, THEN conjunct1, THEN iffD2]) simp
  from w0 v w1 w2 w3 show ?thesis by (intro conjI)
qed

subsection \<open>C10: creation does not look at the clock\<close>

text \<open>
  C10. \<open>createPoll\<close> never compares the window with the current time: in a reachable state
  whose poll counter can still be incremented, a valid configuration is accepted with the
  same result at every timestamp, so also when the whole window lies in the past or
  \<open>startTime\<close> lies arbitrarily far in the future. On the poll just created, every vote at a
  time at or after \<open>endTime\<close> fails with the time-window error \<open>PollExpired\<close>, and \<open>endPoll\<close>
  at such a time succeeds at once.
\<close>

theorem createPoll_ignores_clock:
  assumes "reachable L s" "2 \<le> length opts" "length opts \<le> 4" "start < end'"
    "pollCount s \<noteq> - 1"
  shows "\<exists>s'.
     (\<forall>now. createPoll L (e\<lparr>timestamp := now\<rparr>) ttl opts start end' s = Done (pollCount s) s') \<and>
     (\<forall>e'. ucast end' \<le> timestamp e' \<longrightarrow>
        (\<forall>choice inputProof.
           vote L e' (pollCount s) choice inputProof s' = Failed PollExpired s') \<and>
        (\<exists>s''. endPoll e' (pollCount s) s' = Done () s'' \<and>
           ended (polls s'' (pollCount s))))"
proof -
  have nex: "\<not> requirePollExists s (pollCount s)" by (simp add: requirePollExists_def)
  with reachable_polls [OF assms(1), of "pollCount s"] have z: "polls s (pollCount s) = zeroPoll"
    by simp
  from createPoll_success [OF assms(2-5), of L e ttl] obtain a where
    a: "\<forall>j<4. get4 a j =
            (if j < length opts then opts ! j else get4 (options (polls s (pollCount s))) j)"
    by blast
  define s' where "s' = s\<lparr>polls := (polls s)(pollCount s :=
               (polls s (pollCount s))\<lparr>title := ttl,
                  optionCount := of_nat (length opts), startTime := start, endTime := end',
                  creator := sender e, options := a,
                  encryptedCounts :=
                    Arr4 (asEuint32 L 0) (asEuint32 L 0) (asEuint32 L 0) (asEuint32 L 0)\<rparr>),
            pollCount := pollCount s + 1,
            events := events s @
              [PollCreated (pollCount s) (sender e) ttl (of_nat (length opts)) start end'],
            allowedThis := allowedThis s @
              [asEuint32 L 0, asEuint32 L 0, asEuint32 L 0, asEuint32 L 0]\<rparr>"
  have created: "createPoll L (e\<lparr>timestamp := now\<rparr>) ttl opts start end' s =
      Done (pollCount s) s'" for now
  proof -
    from createPoll_success [OF assms(2-5), of L "e\<lparr>timestamp := now\<rparr>" ttl] obtain b where
      b: "\<forall>j<4. get4 b j =
            (if j < length opts then opts ! j else get4 (options (polls s (pollCount s))) j)"
      and eqb: "createPoll L (e\<lparr>timestamp := now\<rparr>) ttl opts start end' s =
       Done (pollCount s)
        (s\<lparr>polls := (polls s)(pollCount s :=
               (polls s (pollCount s))\<lparr>title := ttl,
                  optionCount := of_nat (length opts), startTime := start, endTime := end',
                  creator := sender (e\<lparr>timestamp := now\<rparr>), options := b,
                  encryptedCounts :=
                    Arr4 (asEuint32 L 0) (asEuint32 L 0) (asEuint32 L 0) (asEuint32 L 0)\<rparr>),
            pollCount := pollCount s + 1,
            events := events s @
              [PollCreated (pollCount s) (sender (e\<lparr>timestamp := now\<rparr>)) ttl
                 (of_nat (length opts)) start end'],
            allowedThis := allowedThis s @
              [asEuint32 L 0, asEuint32 L 0, asEuint32 L 0, asEuint32 L 0]\<rparr>)"
      by blast
    have "b = a"
    proof (rule arr4_eqI)
      fix j :: nat assume "j < 4"
      with a b show "get4 b j = get4 a j" by simp
    qed
    with eqb show ?thesis by (simp add: s'_def)
  qed
  have ex: "requirePollExists s' (pollCount s)"
    using assms(5) by (simp add: s'_def requirePollExists_def less_inc_iff)
  have ne: "\<not> ended (polls s' (pollCount s))"
    by (simp add: s'_def z zeroPoll_def)
  have st: "startTime (polls s' (pollCount s)) = start" by (simp add: s'_def)
  have en: "endTime (polls s' (pollCount s)) = end'" by (simp add: s'_def)
  have n4: "unat (optionCount (polls s' (pollCount s))) \<le> 4"
    using assms(3) by (simp add: s'_def unat_optionCount)
  have after: "(\<forall>choice inputProof.
           vote L e' (pollCount s) choice inputProof s' = Failed PollExpired s') \<and>
        (\<exists>s''. endPoll e' (pollCount s) s' = Done () s'' \<and>
           ended (polls s'' (pollCount s)))"
    if t: "ucast end' \<le> timestamp e'" for e'
  proof -
    from assms(4) have "(ucast start :: uint256) < ucast end'" by (simp add: ucast64_less)
    with t have t1: "ucast (startTime (polls s' (pollCount s))) \<le> timestamp e'"
      unfolding st by simp
    from t have t2: "ucast (endTime (polls s' (pollCount s))) \<le> timestamp e'"
      unfolding en .
    have v: "\<forall>choice inputProof.
        vote L e' (pollCount s) choice inputProof s' = Failed PollExpired s'"
      using vote_expired [OF ex ne t1 t2] by blast
    from endPoll_success [OF ex ne t2 n4]
    have "\<exists>s''. endPoll e' (pollCount s) s' = Done () s'' \<and> ended (polls s'' (pollCount s))"
      by simp
    with v show ?thesis by (intro conjI)
  qed
  from created after show ?thesis by blast
qed

theorem createPoll_ignores_clock_witness:
  "createPoll plain \<lparr>timestamp = 5000, sender = 1\<rparr> ''Stale'' [''a'', ''b''] 100 200 initial
     = Done 0 stale \<and>
   vote plain \<lparr>timestamp = 5000, sender = 2\<rparr> 0 0 [1] stale = Failed PollExpired stale \<and>
   (\<exists>s''. endPoll \<lparr>timestamp = 5000, sender = 1\<rparr> 0 stale = Done () s'')"
proof -
  have h: "2 \<le> length [''a'', ''b'']" "length [''a'', ''b''] \<le> 4" "(100 :: uint64) < 200"
    "pollCount initial \<noteq> - 1"
    by (simp_all add: initial_def)
  from createPoll_ignores_clock [OF reachable_initial h, where L = plain
      and e = "\<lparr>timestamp = 5000, sender = 1\<rparr>" and ttl = "''Stale''"]
  obtain s' where
    c: "\<forall>now. createPoll plain (\<lparr>timestamp = 5000, sender = 1\<rparr>\<lparr>timestamp := now\<rparr>) ''Stale''
          [''a'', ''b''] 100 200 initial = Done (pollCount initial) s'"
    and a: "\<forall>e'. ucast (200 :: uint64) \<le> timestamp e' \<longrightarrow>
        (\<forall>choice inputProof.
           vote plain e' (pollCount initial) choice inputProof s' = Failed PollExpired s') \<and>
        (\<exists>s''. endPoll e' (pollCount initial) s' = Done () s'' \<and>
           ended (polls s'' (pollCount initial)))"
    by blast
  have v: "createPoll plain \<lparr>timestamp = 5000, sender = 1\<rparr> ''Stale'' [''a'', ''b''] 100 200 initial
     = Done 0 stale"
    by (simp add: stale_def evaluate)
  have p0: "pollCount initial = 0" by (simp add: initial_def)
  from c [THEN spec, of 5000] v have s': "s' = stale" by simp
  have t2: "ucast (200 :: uint64) \<le> timestamp \<lparr>timestamp = 5000, sender = 2\<rparr>" by simp
  have t1: "ucast (200 :: uint64) \<le> timestamp \<lparr>timestamp = 5000, sender = 1\<rparr>" by simp
  from a [THEN spec, THEN mp, OF t2] have
    "vote plain \<lparr>timestamp = 5000, sender = 2\<rparr> 0 0 [1] stale = Failed PollExpired stale"
    unfolding s' p0 by blast
  moreover from a [THEN spec, THEN mp, OF t1] have
    "\<exists>s''. endPoll \<lparr>timestamp = 5000, sender = 1\<rparr> 0 stale = Done () s''"
    unfolding s' p0 by blast
  ultimately show ?thesis using v by (intro conjI)
qed

end
